theory Spec2Isabelle
  imports Complex_Main
begin

section \<open>JavaScript values used by the charge recalculation\<close>

text \<open>
  The helper \<^verbatim>\<open>aurtoChargeCalculations\<close> (function \<^verbatim>\<open>updateMortuaryCharges\<close>)
  computes with JavaScript Numbers. A Number is modelled as an exact rational, or one of
  the three special values. The rounding of finite results to binary64, the overflow of
  an arithmetic result and the sign of zero are not part of the model: a finite result
  is the exact value of the operation.
\<close>

datatype jsnum = Fin rat | PosInf | NegInf | NaN

fun js_neg :: "jsnum \<Rightarrow> jsnum" where
  "js_neg (Fin x) = Fin (- x)"
| "js_neg PosInf = NegInf"
| "js_neg NegInf = PosInf"
| "js_neg NaN = NaN"

text \<open>The operator \<^verbatim>\<open>+\<close> on two Numbers.\<close>

fun js_add :: "jsnum \<Rightarrow> jsnum \<Rightarrow> jsnum" where
  "js_add (Fin x) (Fin y) = Fin (x + y)"
| "js_add (Fin x) PosInf = PosInf"
| "js_add (Fin x) NegInf = NegInf"
| "js_add PosInf (Fin y) = PosInf"
| "js_add PosInf PosInf = PosInf"
| "js_add PosInf NegInf = NaN"
| "js_add NegInf (Fin y) = NegInf"
| "js_add NegInf NegInf = NegInf"
| "js_add NegInf PosInf = NaN"
| "js_add NaN b = NaN"
| "js_add a NaN = NaN"

definition js_sub :: "jsnum \<Rightarrow> jsnum \<Rightarrow> jsnum" where
  "js_sub a b = js_add a (js_neg b)"

text \<open>An infinity of the given sign (\<open>True\<close> is negative).\<close>

definition js_inf :: "bool \<Rightarrow> jsnum" where
  "js_inf neg = (if neg then NegInf else PosInf)"

text \<open>The operator \<^verbatim>\<open>*\<close>: zero times an infinity is NaN.\<close>

fun js_mul :: "jsnum \<Rightarrow> jsnum \<Rightarrow> jsnum" where
  "js_mul (Fin x) (Fin y) = Fin (x * y)"
| "js_mul (Fin x) PosInf = (if x = 0 then NaN else js_inf (x < 0))"
| "js_mul (Fin x) NegInf = (if x = 0 then NaN else js_inf (0 < x))"
| "js_mul PosInf (Fin y) = (if y = 0 then NaN else js_inf (y < 0))"
| "js_mul NegInf (Fin y) = (if y = 0 then NaN else js_inf (0 < y))"
| "js_mul PosInf PosInf = PosInf"
| "js_mul PosInf NegInf = NegInf"
| "js_mul NegInf PosInf = NegInf"
| "js_mul NegInf NegInf = PosInf"
| "js_mul NaN b = NaN"
| "js_mul a NaN = NaN"

text \<open>
  The operator \<^verbatim>\<open>/\<close>: a non-zero number over zero is an infinity, zero over zero
  and infinity over infinity are NaN.
\<close>

fun js_div :: "jsnum \<Rightarrow> jsnum \<Rightarrow> jsnum" where
  "js_div (Fin x) (Fin y) =
     (if y = 0 then (if x = 0 then NaN else js_inf (x < 0)) else Fin (x / y))"
| "js_div (Fin x) PosInf = Fin 0"
| "js_div (Fin x) NegInf = Fin 0"
| "js_div PosInf (Fin y) = js_inf (y < 0)"
| "js_div NegInf (Fin y) = js_inf (0 \<le> y)"
| "js_div PosInf PosInf = NaN"
| "js_div PosInf NegInf = NaN"
| "js_div NegInf PosInf = NaN"
| "js_div NegInf NegInf = NaN"
| "js_div NaN b = NaN"
| "js_div a NaN = NaN"

text \<open>The comparison \<^verbatim>\<open>a > b\<close>: false as soon as one side is NaN.\<close>

fun js_gt :: "jsnum \<Rightarrow> jsnum \<Rightarrow> bool" where
  "js_gt (Fin x) (Fin y) = (y < x)"
| "js_gt PosInf (Fin y) = True"
| "js_gt PosInf NegInf = True"
| "js_gt (Fin x) NegInf = True"
| "js_gt PosInf PosInf = False"
| "js_gt NegInf b = False"
| "js_gt (Fin x) PosInf = False"
| "js_gt NaN b = False"
| "js_gt a NaN = False"

text \<open>
  A value read from a column of a result row: SQL NULL, a Number, or a string (the
  driver returns DECIMAL columns as strings).
\<close>

datatype jsval = JNull | JNum jsnum | JStr string

text \<open>Truthiness, as the operator \<^verbatim>\<open>||\<close> tests it.\<close>

fun truthy :: "jsval \<Rightarrow> bool" where
  "truthy JNull = False"
| "truthy (JNum (Fin x)) = (x \<noteq> 0)"
| "truthy (JNum NaN) = False"
| "truthy (JNum PosInf) = True"
| "truthy (JNum NegInf) = True"
| "truthy (JStr s) = (s \<noteq> [])"

text \<open>\<^verbatim>\<open>v || d\<close>\<close>

definition js_or :: "jsval \<Rightarrow> jsval \<Rightarrow> jsval" where
  "js_or v d = (if truthy v then v else d)"

subsection \<open>Reading numbers from strings\<close>

definition is_ws :: "char \<Rightarrow> bool" where
  "is_ws c = (c \<in> set [CHR 0x20, CHR 0x09, CHR 0x0A, CHR 0x0B, CHR 0x0C, CHR 0x0D])"

definition is_digit :: "char \<Rightarrow> bool" where
  "is_digit c = (c \<in> set ''0123456789'')"

text \<open>The value of a digit in a base up to sixteen, if it is one.\<close>

definition digit_val :: "char \<Rightarrow> nat option" where
  "digit_val c =
     (if c \<in> set ''0123456789'' then Some (of_char c - 48)
      else if c \<in> set ''abcdef'' then Some (of_char c - 87)
      else if c \<in> set ''ABCDEF'' then Some (of_char c - 55)
      else None)"

definition digits_val :: "nat \<Rightarrow> string \<Rightarrow> nat" where
  "digits_val base ds = foldl (\<lambda>a c. base * a + (case digit_val c of None \<Rightarrow> 0 | Some d \<Rightarrow> d)) 0 ds"

definition is_prefix :: "string \<Rightarrow> string \<Rightarrow> bool" where
  "is_prefix p s = (take (length p) s = p)"

text \<open>
  The optional exponent part after the mantissa: \<^verbatim>\<open>e\<close> or \<^verbatim>\<open>E\<close>, an optional sign
  and at least one digit. Returns the exponent and the rest of the string; an \<^verbatim>\<open>e\<close>
  with no digit after it is not part of the number.
\<close>

definition exponent_part :: "string \<Rightarrow> int \<times> string" where
  "exponent_part s =
     (case s of
        [] \<Rightarrow> (0, s)
      | c # r \<Rightarrow>
          if c = CHR ''e'' \<or> c = CHR ''E'' then
            (let neg = is_prefix ''-'' r;
                 r1 = (if is_prefix ''-'' r \<or> is_prefix ''+'' r then tl r else r);
                 ds = takeWhile is_digit r1
             in if ds = [] then (0, s)
                else ((if neg then - int (digits_val 10 ds) else int (digits_val 10 ds)),
                      dropWhile is_digit r1))
          else (0, s))"

definition pow10 :: "int \<Rightarrow> rat" where
  "pow10 e = (if 0 \<le> e then 10 ^ nat e else 1 / 10 ^ nat (- e))"

text \<open>
  The Number a numeric literal of the given exact value reads as: beyond the range of
  binary64 (from \<open>2^1024 - 2^970\<close> on, where rounding to nearest leaves the finite
  numbers) it is an infinity.
\<close>

definition read_number :: "rat \<Rightarrow> jsnum" where
  "read_number v = (if 2 ^ 1024 - 2 ^ 970 \<le> \<bar>v\<bar> then js_inf (v < 0) else Fin v)"

text \<open>
  The longest prefix that is a \<^verbatim>\<open>StrDecimalLiteral\<close>: a sign, then \<^verbatim>\<open>Infinity\<close>
  or digits with an optional fraction and exponent. Returns the number and the rest, or
  \<open>None\<close> when no prefix is a number.
\<close>

definition decimal_prefix :: "string \<Rightarrow> (jsnum \<times> string) option" where
  "decimal_prefix s =
     (let neg = is_prefix ''-'' s;
          s1 = (if is_prefix ''-'' s \<or> is_prefix ''+'' s then tl s else s)
      in if is_prefix ''Infinity'' s1 then Some (js_inf neg, drop 8 s1)
         else
           (let ip = takeWhile is_digit s1;
                r1 = dropWhile is_digit s1;
                fp = (if is_prefix ''.'' r1 then takeWhile is_digit (tl r1) else []);
                r2 = (if is_prefix ''.'' r1 then dropWhile is_digit (tl r1) else r1)
            in if ip = [] \<and> fp = [] then None
               else
                 (let (e, r3) = exponent_part r2;
                      m = of_nat (digits_val 10 ip)
                          + of_nat (digits_val 10 fp) / 10 ^ length fp;
                      v = m * pow10 e
                  in Some (read_number (if neg then - v else v), r3))))"

text \<open>\<^verbatim>\<open>parseFloat\<close> on a string: leading white space is skipped, trailing text ignored.\<close>

definition parseFloat_str :: "string \<Rightarrow> jsnum" where
  "parseFloat_str s =
     (case decimal_prefix (dropWhile is_ws s) of None \<Rightarrow> NaN | Some (v, r) \<Rightarrow> v)"

text \<open>
  \<^verbatim>\<open>parseFloat(v)\<close>: the argument is converted to a string first, so \<^verbatim>\<open>null\<close>
  reads as the text "null" and gives NaN, and a Number reads back as itself.
\<close>

fun parseFloat :: "jsval \<Rightarrow> jsnum" where
  "parseFloat JNull = NaN"
| "parseFloat (JNum n) = n"
| "parseFloat (JStr s) = parseFloat_str s"

text \<open>
  The conversion \<^verbatim>\<open>ToNumber\<close> that the arithmetic operators apply to an operand:
  a string is trimmed on both sides and must be a numeric literal as a whole (decimal, or
  an unsigned literal in base 16, 8 or 2); the empty string is 0.
\<close>

definition radix_literal :: "nat \<Rightarrow> string \<Rightarrow> jsnum" where
  "radix_literal base ds =
     (if ds \<noteq> [] \<and> (\<forall>c \<in> set ds. case digit_val c of None \<Rightarrow> False | Some d \<Rightarrow> d < base)
      then read_number (of_nat (digits_val base ds)) else NaN)"

definition string_to_number :: "string \<Rightarrow> jsnum" where
  "string_to_number s =
     (let t = rev (dropWhile is_ws (rev (dropWhile is_ws s)))
      in if t = [] then Fin 0
         else if is_prefix ''0x'' t \<or> is_prefix ''0X'' t then radix_literal 16 (drop 2 t)
         else if is_prefix ''0o'' t \<or> is_prefix ''0O'' t then radix_literal 8 (drop 2 t)
         else if is_prefix ''0b'' t \<or> is_prefix ''0B'' t then radix_literal 2 (drop 2 t)
         else (case decimal_prefix t of
                 None \<Rightarrow> NaN
               | Some (v, r) \<Rightarrow> if r = [] then v else NaN))"

fun to_number :: "jsval \<Rightarrow> jsnum" where
  "to_number JNull = Fin 0"
| "to_number (JNum n) = n"
| "to_number (JStr s) = string_to_number s"

subsection \<open>Printing numbers\<close>

fun digits_of :: "nat \<Rightarrow> string" where
  "digits_of n = (if n < 10 then [''0123456789'' ! n]
                  else digits_of (n div 10) @ [''0123456789'' ! (n mod 10)])"

text \<open>
  \<^verbatim>\<open>x.toFixed(f)\<close>: the integer \<open>n\<close> nearest to \<open>x * 10^f\<close> (the larger one on a tie),
  printed with \<open>f\<close> digits after the point. (For a magnitude of \<open>10^21\<close> or more
  JavaScript switches to exponent notation, which is not modelled; no day count reaches
  it.)
\<close>

definition toFixed :: "nat \<Rightarrow> jsnum \<Rightarrow> string" where
  "toFixed f x =
     (case x of
        NaN \<Rightarrow> ''NaN''
      | PosInf \<Rightarrow> ''Infinity''
      | NegInf \<Rightarrow> ''-Infinity''
      | Fin q \<Rightarrow>
          (let n = nat \<lfloor>\<bar>q\<bar> * 10 ^ f + 1 / 2\<rfloor>;
               m = digits_of n;
               m' = (if length m \<le> f then replicate (f + 1 - length m) CHR ''0'' @ m else m);
               k = length m'
           in (if q < 0 then ''-'' else '''')
              @ (if f = 0 then m' else take (k - f) m' @ ''.'' @ drop (k - f) m')))"

subsection \<open>Dates\<close>

text \<open>
  A \<^verbatim>\<open>Date\<close> object: its time value in milliseconds since the epoch, or an invalid
  date. A \<^verbatim>\<open>Date\<close> object is always truthy; a DATETIME column holds one or NULL.
\<close>

datatype jsdate = ValidDate int | InvalidDate

text \<open>\<^verbatim>\<open>new Date(v)\<close> for a column value: a copy of the date; \<^verbatim>\<open>new Date(null)\<close> is the epoch.\<close>

fun new_Date :: "jsdate option \<Rightarrow> jsdate" where
  "new_Date None = ValidDate 0"
| "new_Date (Some d) = d"

text \<open>The Number a \<^verbatim>\<open>Date\<close> converts to in arithmetic.\<close>

fun date_value :: "jsdate \<Rightarrow> jsnum" where
  "date_value (ValidDate t) = Fin (of_int t)"
| "date_value InvalidDate = NaN"

text \<open>
  \<^verbatim>\<open>
  function getFractionalDays(start, end) {
    const s = new Date(start);
    const e = new Date(end);
    const ms = 1000 * 60 * 60 * 24;
    const diff = (e - s) / ms;
    return diff > 0 ? diff : 0;
  }
  \<close>
\<close>

definition getFractionalDays :: "jsdate \<Rightarrow> jsdate \<Rightarrow> jsnum" where
  "getFractionalDays start end' =
     (let s = new_Date (Some start);
          e = new_Date (Some end');
          ms = Fin (1000 * 60 * 60 * 24);
          diff = js_div (js_sub (date_value e) (date_value s)) ms
      in if js_gt diff (Fin 0) then diff else Fin 0)"

section \<open>The tables\<close>

text \<open>
  The rows of the tables the recalculation reads and writes, with the columns it uses.
  Field names carry the alias of the table in the queries (\<open>d\<close>, \<open>ci\<close>, \<open>c\<close>,
  \<open>ec\<close>, \<open>p\<close>), since a field name is global. Amount columns hold what the driver
  hands to the code (NULL, a Number or a string); \<open>coffin_issue.quantity\<close> is an integer
  column, on which \<^verbatim>\<open>parseInt\<close> is the identity.
\<close>

record deceased_row =
  d_id :: int
  d_deceased_id :: string
  d_rate_category :: "string option"
  d_created_at :: "jsdate option"
  d_date_admitted :: "jsdate option"
  d_last_charge_update :: "jsdate option"
  d_total_mortuary_charge :: jsval
  d_currency :: "string option"
  d_usd_charge_rate :: jsval
  d_embalming_cost :: jsval
  d_status :: "string option"
  d_balance :: jsval

record coffin_issue_row =
  ci_rfid :: string
  ci_coffin_id :: int
  ci_quantity :: "int option"

record coffin_row =
  c_coffin_id :: int
  c_exact_price :: jsval
  c_currency :: "string option"
  c_price_usd :: jsval
  c_exchange_rate :: jsval

record extra_charge_row =
  ec_deceased_id :: string
  ec_amount :: jsval
  ec_status :: "string option"

record payment_row =
  p_deceased_id :: string
  p_amount :: jsval

record charge_history_row =
  ch_deceased_id :: string
  ch_charge_type :: string
  ch_amount :: jsnum
  ch_currency :: string
  ch_description :: string

record database =
  deceased :: "deceased_row list"
  coffin_issue :: "coffin_issue_row list"
  coffins :: "coffin_row list"
  extra_charges :: "extra_charge_row list"
  payments :: "payment_row list"
  charge_history :: "charge_history_row list"

text \<open>A row of the coffin query: the selected columns under their names in the query.\<close>

record coffin_result =
  exact_price :: jsval
  coffin_currency :: "string option"
  price_usd :: jsval
  exchange_rate :: jsval
  quantity :: "int option"

subsection \<open>The six statements of \<^verbatim>\<open>updateMortuaryCharges\<close>\<close>

text \<open>
  Strings are compared as they are written (the collation of the columns is not in the
  sources). A comparison with NULL is not true, so a row with a NULL status fails
  \<^verbatim>\<open>status != 'Cancelled'\<close>.
\<close>

text \<open>
  \<^verbatim>\<open>SELECT ... FROM deceased
  WHERE created_at IS NOT NULL AND (status IS NULL OR status != 'Complete')\<close>
\<close>

definition select_deceased :: "database \<Rightarrow> deceased_row list" where
  "select_deceased db =
     filter (\<lambda>d. d_created_at d \<noteq> None \<and> (d_status d = None \<or> d_status d \<noteq> Some ''Complete''))
       (deceased db)"

text \<open>\<^verbatim>\<open>INSERT INTO charge_history (...) VALUES (?, ?, ?, ?, ?, NOW())\<close>\<close>

definition insert_charge_history :: "charge_history_row \<Rightarrow> database \<Rightarrow> database" where
  "insert_charge_history r db = db\<lparr>charge_history := charge_history db @ [r]\<rparr>"

text \<open>
  \<^verbatim>\<open>SELECT c.exact_price, c.currency AS coffin_currency, c.price_usd, c.exchange_rate,
         ci.quantity
  FROM coffin_issue ci JOIN coffins c ON ci.coffin_id = c.coffin_id WHERE ci.rfid = ?\<close>
\<close>

definition select_coffins :: "string \<Rightarrow> database \<Rightarrow> coffin_result list" where
  "select_coffins deceased_id db =
     concat (map (\<lambda>ci.
         map (\<lambda>c. \<lparr>exact_price = c_exact_price c, coffin_currency = c_currency c,
                    price_usd = c_price_usd c, exchange_rate = c_exchange_rate c,
                    quantity = ci_quantity ci\<rparr>)
           (filter (\<lambda>c. ci_coffin_id ci = c_coffin_id c) (coffins db)))
       (filter (\<lambda>ci. ci_rfid ci = deceased_id) (coffin_issue db)))"

text \<open>
  \<^verbatim>\<open>SELECT amount FROM extra_charges WHERE deceased_id = ? AND status != 'Cancelled'\<close>
\<close>

definition select_extra_charges :: "string \<Rightarrow> database \<Rightarrow> jsval list" where
  "select_extra_charges deceased_id db =
     map ec_amount
       (filter (\<lambda>e. ec_deceased_id e = deceased_id
                     \<and> (case ec_status e of None \<Rightarrow> False | Some s \<Rightarrow> s \<noteq> ''Cancelled''))
          (extra_charges db))"

text \<open>\<^verbatim>\<open>SELECT amount FROM payments WHERE deceased_id = ?\<close>\<close>

definition select_payments :: "string \<Rightarrow> database \<Rightarrow> jsval list" where
  "select_payments deceased_id db =
     map p_amount (filter (\<lambda>p. p_deceased_id p = deceased_id) (payments db))"

text \<open>
  \<^verbatim>\<open>UPDATE deceased SET total_mortuary_charge = ?, last_charge_update = ?, balance = ?
  WHERE deceased_id = ?\<close>
\<close>

definition update_deceased :: "jsnum \<Rightarrow> jsdate \<Rightarrow> jsnum \<Rightarrow> string \<Rightarrow> database \<Rightarrow> database" where
  "update_deceased newTotal now balance deceased_id db =
     db\<lparr>deceased :=
          map (\<lambda>d. if d_deceased_id d = deceased_id
                    then d\<lparr>d_total_mortuary_charge := JNum newTotal,
                           d_last_charge_update := Some now,
                           d_balance := JNum balance\<rparr>
                    else d)
            (deceased db)\<rparr>"

section \<open>The environment of a run\<close>

text \<open>
  What a run takes from outside: the clock, the fate of each query, and the date the
  driver later returns for the text that \<^verbatim>\<open>getKenyanDateTime\<close> formats from a clock
  reading (it depends on the time zones of the server and of the connection). The
  formatting is taken to succeed: it is the first statement of the function, before the
  \<^verbatim>\<open>try\<close> block, and a run in which it threw would read and write nothing. The world
  counts the clock readings and the queries of the run, so that the \<open>n\<close>-th
  \<^verbatim>\<open>new Date()\<close> reads \<open>clock n\<close> and the \<open>n\<close>-th \<^verbatim>\<open>safeQuery\<close> throws when
  \<open>fails n\<close>.
\<close>

record env =
  clock :: "nat \<Rightarrow> int"
  fails :: "nat \<Rightarrow> bool"
  getKenyanDateTime :: "int \<Rightarrow> jsdate"

datatype error = QueryFailed nat

record world =
  db :: database
  reads :: nat
  queries :: nat
  errorLog :: "error list"

text \<open>
  \<^verbatim>\<open>await safeQuery(sql, params)\<close>: the statement runs on the database, or the call
  throws and the database is as it was.
\<close>

definition safeQuery ::
  "env \<Rightarrow> world \<Rightarrow> (database \<Rightarrow> 'r \<times> database) \<Rightarrow> (error \<times> world) + ('r \<times> world)" where
  "safeQuery e w q =
     (let n = queries w; w1 = w\<lparr>queries := n + 1\<rparr>
      in if fails e n then Inl (QueryFailed n, w1)
         else (case q (db w) of (r, db') \<Rightarrow> Inr (r, w1\<lparr>db := db'\<rparr>)))"

text \<open>
  \<^verbatim>\<open>
  async function saveChargeHistory(deceased_id, type, amount, currency, description) {
    await safeQuery(`INSERT INTO charge_history ...`,
      [deceased_id, type, amount, currency, description]);
  }
  \<close>
\<close>

definition saveChargeHistory ::
  "env \<Rightarrow> world \<Rightarrow> string \<Rightarrow> string \<Rightarrow> jsnum \<Rightarrow> string \<Rightarrow> string \<Rightarrow> (error \<times> world) + (unit \<times> world)" where
  "saveChargeHistory e w deceased_id type amount currency description =
     safeQuery e w (\<lambda>db. ((), insert_charge_history
       \<lparr>ch_deceased_id = deceased_id, ch_charge_type = type, ch_amount = amount,
        ch_currency = currency, ch_description = description\<rparr> db))"

section \<open>The recalculation of one case\<close>

text \<open>
  The body of the loop of \<^verbatim>\<open>updateMortuaryCharges\<close>, first the values it computes
  between the queries, under the names of its local variables.
\<close>

text \<open>\<^verbatim>\<open>const cur = currency || 'KES';\<close>\<close>

definition cur :: "deceased_row \<Rightarrow> string" where
  "cur d = (case d_currency d of None \<Rightarrow> ''KES'' | Some c \<Rightarrow> if c = [] then ''KES'' else c)"

text \<open>
  \<^verbatim>\<open>
  const baseRate =
    cur === 'USD'
      ? parseFloat(usd_charge_rate || 130)
      : rate_category === 'premium' ? 5000 : 3000;
  \<close>
\<close>

definition baseRate :: "deceased_row \<Rightarrow> jsnum" where
  "baseRate d =
     (if cur d = ''USD'' then parseFloat (js_or (d_usd_charge_rate d) (JNum (Fin 130)))
      else if d_rate_category d = Some ''premium'' then Fin 5000
      else Fin 3000)"

text \<open>
  \<^verbatim>\<open>
  const admissionDate = date_admitted ? new Date(date_admitted) : new Date(created_at);
  const totalDays = getFractionalDays(admissionDate, new Date());
  const totalStorageCharge = totalDays * baseRate;
  \<close>
\<close>

definition admissionDate :: "deceased_row \<Rightarrow> jsdate" where
  "admissionDate d =
     (case d_date_admitted d of Some a \<Rightarrow> new_Date (Some a) | None \<Rightarrow> new_Date (d_created_at d))"

definition totalDays :: "deceased_row \<Rightarrow> int \<Rightarrow> jsnum" where
  "totalDays d t = getFractionalDays (admissionDate d) (ValidDate t)"

definition totalStorageCharge :: "deceased_row \<Rightarrow> int \<Rightarrow> jsnum" where
  "totalStorageCharge d t = js_mul (totalDays d t) (baseRate d)"

text \<open>
  \<^verbatim>\<open>
  const lastUpdate = last_charge_update ? new Date(last_charge_update) : new Date(created_at);
  const incrementalDays = getFractionalDays(lastUpdate, new Date());
  const incrementalCharge = incrementalDays * baseRate;
  \<close>
\<close>

definition lastUpdate :: "deceased_row \<Rightarrow> jsdate" where
  "lastUpdate d =
     (case d_last_charge_update d of Some u \<Rightarrow> new_Date (Some u) | None \<Rightarrow> new_Date (d_created_at d))"

definition incrementalDays :: "deceased_row \<Rightarrow> int \<Rightarrow> jsnum" where
  "incrementalDays d t = getFractionalDays (lastUpdate d) (ValidDate t)"

definition incrementalCharge :: "deceased_row \<Rightarrow> int \<Rightarrow> jsnum" where
  "incrementalCharge d t = js_mul (incrementalDays d t) (baseRate d)"

text \<open>\<^verbatim>\<open>`Daily mortuary charge (${incrementalDays.toFixed(4)} days)`\<close>\<close>

definition description :: "jsnum \<Rightarrow> string" where
  "description days = ''Daily mortuary charge ('' @ toFixed 4 days @ '' days)''"

text \<open>
  \<^verbatim>\<open>
  const qty = parseInt(c.quantity || 1);
  let price = 0;
  if (c.coffin_currency === 'KES') {
    if (cur === 'KES') price = parseFloat(c.exact_price);
    else price = parseFloat(c.exact_price) / (c.exchange_rate || 130);
  } else if (c.coffin_currency === 'USD') {
    if (cur === 'USD') price = parseFloat(c.price_usd);
    else price = parseFloat(c.price_usd) * (c.exchange_rate || 130);
  }
  coffinCharges += price * qty;
  \<close>
\<close>

definition qty :: "coffin_result \<Rightarrow> jsnum" where
  "qty c = (case quantity c of None \<Rightarrow> Fin 1 | Some n \<Rightarrow> if n = 0 then Fin 1 else Fin (of_int n))"

definition price :: "string \<Rightarrow> coffin_result \<Rightarrow> jsnum" where
  "price cu c =
     (if coffin_currency c = Some ''KES'' then
        (if cu = ''KES'' then parseFloat (exact_price c)
         else js_div (parseFloat (exact_price c))
                (to_number (js_or (exchange_rate c) (JNum (Fin 130)))))
      else if coffin_currency c = Some ''USD'' then
        (if cu = ''USD'' then parseFloat (price_usd c)
         else js_mul (parseFloat (price_usd c))
                (to_number (js_or (exchange_rate c) (JNum (Fin 130)))))
      else Fin 0)"

definition coffinCharges :: "string \<Rightarrow> coffin_result list \<Rightarrow> jsnum" where
  "coffinCharges cu coffinRows =
     foldl (\<lambda>acc c. js_add acc (js_mul (price cu c) (qty c))) (Fin 0) coffinRows"

text \<open>
  \<^verbatim>\<open>
  let extraCharges = 0;
  for (const e of extraRows) { extraCharges += parseFloat(e.amount || 0); }
  \<close>
\<close>

definition extraCharges :: "jsval list \<Rightarrow> jsnum" where
  "extraCharges extraRows =
     foldl (\<lambda>acc amount. js_add acc (parseFloat (js_or amount (JNum (Fin 0))))) (Fin 0) extraRows"

text \<open>\<^verbatim>\<open>const embalming = parseFloat(embalming_cost || 0);\<close>\<close>

definition embalming :: "deceased_row \<Rightarrow> jsnum" where
  "embalming d = parseFloat (js_or (d_embalming_cost d) (JNum (Fin 0)))"

text \<open>
  \<^verbatim>\<open>
  const totalPayments = paymentsRows.reduce((sum, r) => sum + parseFloat(r.amount || 0), 0);
  \<close>
\<close>

definition totalPayments :: "jsval list \<Rightarrow> jsnum" where
  "totalPayments paymentsRows =
     foldl (\<lambda>sum amount. js_add sum (parseFloat (js_or amount (JNum (Fin 0))))) (Fin 0) paymentsRows"

text \<open>
  \<^verbatim>\<open>
  const newTotal = totalStorageCharge + coffinCharges + extraCharges + embalming;
  const balance = newTotal - totalPayments;
  \<close>
\<close>

definition newTotal :: "jsnum \<Rightarrow> jsnum \<Rightarrow> jsnum \<Rightarrow> jsnum \<Rightarrow> jsnum" where
  "newTotal storage coffin extra emb = js_add (js_add (js_add storage coffin) extra) emb"

definition balance :: "jsnum \<Rightarrow> jsnum \<Rightarrow> jsnum" where
  "balance t paid = js_sub t paid"

text \<open>
  One iteration of \<^verbatim>\<open>for (const d of deceasedList)\<close>. The two \<^verbatim>\<open>new Date()\<close> are
  read first, then up to five queries run in the order of the source: the audit insert
  (only when the incremental charge exceeds 0.01), the coffin, extra-charge and payment
  selects, the update. A query that throws ends the iteration with the error and the
  world as it then is; nothing is undone.
\<close>

definition processCase :: "env \<Rightarrow> jsdate \<Rightarrow> world \<Rightarrow> deceased_row \<Rightarrow> (error \<times> world) + world" where
  "processCase e now w d =
     (let deceased_id = d_deceased_id d;
          t1 = clock e (reads w);
          t2 = clock e (reads w + 1);
          w0 = w\<lparr>reads := reads w + 2\<rparr>
      in case (if js_gt (incrementalCharge d t2) (Fin (1 / 100))
               then saveChargeHistory e w0 deceased_id ''daily_storage'' (incrementalCharge d t2)
                      (cur d) (description (incrementalDays d t2))
               else Inr ((), w0)) of
           Inl err \<Rightarrow> Inl err
         | Inr (u, w1) \<Rightarrow>
        (case safeQuery e w1 (\<lambda>db. (select_coffins deceased_id db, db)) of
           Inl err \<Rightarrow> Inl err
         | Inr (coffinRows, w2) \<Rightarrow>
        (case safeQuery e w2 (\<lambda>db. (select_extra_charges deceased_id db, db)) of
           Inl err \<Rightarrow> Inl err
         | Inr (extraRows, w3) \<Rightarrow>
        (case safeQuery e w3 (\<lambda>db. (select_payments deceased_id db, db)) of
           Inl err \<Rightarrow> Inl err
         | Inr (paymentsRows, w4) \<Rightarrow>
        (let nt = newTotal (totalStorageCharge d t1) (coffinCharges (cur d) coffinRows)
                       (extraCharges extraRows) (embalming d);
             bal = balance nt (totalPayments paymentsRows)
         in case safeQuery e w4 (\<lambda>db. ((), update_deceased nt now bal deceased_id db)) of
              Inl err \<Rightarrow> Inl err
            | Inr (u', w5) \<Rightarrow> Inr w5)))))"

section \<open>The run\<close>

text \<open>The loop over the rows that were selected at the start of the run.\<close>

fun forLoop :: "env \<Rightarrow> jsdate \<Rightarrow> world \<Rightarrow> deceased_row list \<Rightarrow> (error \<times> world) + world" where
  "forLoop e now w [] = Inr w"
| "forLoop e now w (d # ds) =
     (case processCase e now w d of
        Inl err \<Rightarrow> Inl err
      | Inr w' \<Rightarrow> forLoop e now w' ds)"

text \<open>
  The handler of the single \<^verbatim>\<open>try\<close> block, which encloses the first select and the
  whole loop: the error goes to the log file (its line is stamped with a fresh
  \<^verbatim>\<open>new Date()\<close>) and the function returns.
\<close>

definition catch :: "error \<times> world \<Rightarrow> world" where
  "catch ew = (case ew of (err, w) \<Rightarrow> w\<lparr>reads := reads w + 1, errorLog := errorLog w @ [err]\<rparr>)"

definition updateMortuaryCharges :: "env \<Rightarrow> world \<Rightarrow> world" where
  "updateMortuaryCharges e w =
     (let now = getKenyanDateTime e (clock e (reads w));
          w0 = w\<lparr>reads := reads w + 1\<rparr>
      in case safeQuery e w0 (\<lambda>db. (select_deceased db, db)) of
           Inl err \<Rightarrow> catch err
         | Inr (deceasedList, w1) \<Rightarrow>
             (case forLoop e now w1 deceasedList of
                Inl err \<Rightarrow> catch err
              | Inr w2 \<Rightarrow> w2))"

section \<open>Example data\<close>

text \<open>
  A standard-rate case billed in KES, admitted one second after the epoch, with no
  coffin, extra charge, embalming or payment recorded.
\<close>

definition case0 :: deceased_row where
  "case0 = \<lparr>d_id = 1, d_deceased_id = ''D1'', d_rate_category = Some ''standard'',
     d_created_at = Some (ValidDate 0), d_date_admitted = Some (ValidDate 1000),
     d_last_charge_update = None, d_total_mortuary_charge = JNull, d_currency = Some ''KES'',
     d_usd_charge_rate = JNull, d_embalming_cost = JNull, d_status = None, d_balance = JNull\<rparr>"

text \<open>The same case at the premium rate.\<close>

definition casePremium :: deceased_row where
  "casePremium = case0\<lparr>d_rate_category := Some ''premium''\<rparr>"

text \<open>A case billed in USD with no rate stored, and one with the rate 150.00 stored.\<close>

definition caseUSD :: deceased_row where
  "caseUSD = \<lparr>d_id = 2, d_deceased_id = ''D2'', d_rate_category = Some ''standard'',
     d_created_at = Some (ValidDate 0), d_date_admitted = Some (ValidDate 1000),
     d_last_charge_update = Some (ValidDate 1000), d_total_mortuary_charge = JNull,
     d_currency = Some ''USD'', d_usd_charge_rate = JNull, d_embalming_cost = JNull,
     d_status = None, d_balance = JNull\<rparr>"

definition caseUSD150 :: deceased_row where
  "caseUSD150 = caseUSD\<lparr>d_usd_charge_rate := JStr ''150.00''\<rparr>"

section \<open>Notions used in the statements\<close>

text \<open>The world an outcome leaves behind, whether the loop body returned or threw.\<close>

definition world_of :: "(error \<times> world) + world \<Rightarrow> world" where
  "world_of r = (case r of Inl (err, w) \<Rightarrow> w | Inr w \<Rightarrow> w)"

text \<open>
  The balance identity of the specification for a stored row: its balance is its total
  charge minus the sum of the payments recorded for the case.
\<close>

definition balance_identity :: "database \<Rightarrow> deceased_row \<Rightarrow> bool" where
  "balance_identity D r =
     (\<exists>t. d_total_mortuary_charge r = JNum t
        \<and> d_balance r = JNum (js_sub t (totalPayments (select_payments (d_deceased_id r) D))))"

text \<open>
  A clock standing two days after the admission of the example cases, with no failing
  query, and a database with the two cases and a payment of 2000.00 for the first.
\<close>

definition envOK :: env where
  "envOK = \<lparr>clock = (\<lambda>n. 172801000), fails = (\<lambda>n. False), getKenyanDateTime = ValidDate\<rparr>"

definition dbPaid :: database where
  "dbPaid = \<lparr>deceased = [case0, caseUSD], coffin_issue = [], coffins = [],
     extra_charges = [],
     payments = [\<lparr>p_deceased_id = ''D1'', p_amount = JStr ''2000.00''\<rparr>],
     charge_history = []\<rparr>"

definition worldPaid :: world where
  "worldPaid = \<lparr>db = dbPaid, reads = 0, queries = 0, errorLog = []\<rparr>"

text \<open>
  The first case with its last update 24 minutes before the clock of \<open>envOK\<close> (an
  incremental charge of 50 KES), and a USD case with the rate 86400 stored and its last
  update one millisecond before that clock (an incremental charge of 0.001 USD).
\<close>

definition caseRecent :: deceased_row where
  "caseRecent = case0\<lparr>d_last_charge_update := Some (ValidDate 171361000)\<rparr>"

definition caseTiny :: deceased_row where
  "caseTiny = caseUSD\<lparr>d_usd_charge_rate := JStr ''86400'',
                       d_last_charge_update := Some (ValidDate 172800999)\<rparr>"

text \<open>Environments in which exactly one query of the run throws.\<close>

definition envFail :: "nat \<Rightarrow> env" where
  "envFail k = \<lparr>clock = (\<lambda>n. 172801000), fails = (\<lambda>n. n = k), getKenyanDateTime = ValidDate\<rparr>"

text \<open>A world holding only the first example case, with its payment.\<close>

definition worldOne :: world where
  "worldOne = \<lparr>db = dbPaid\<lparr>deceased := [case0]\<rparr>, reads = 0, queries = 0, errorLog = []\<rparr>"

text \<open>
  A coffin priced 13000.00 KES with a given exchange rate, issued once to the USD case;
  and the first case with an extra charge whose amount is the text \<open>abc\<close>.
\<close>

definition coffinKES :: "jsval \<Rightarrow> coffin_result" where
  "coffinKES r = \<lparr>exact_price = JStr ''13000.00'', coffin_currency = Some ''KES'',
     price_usd = JNull, exchange_rate = r, quantity = Some 1\<rparr>"

definition worldCoffin :: "jsval \<Rightarrow> world" where
  "worldCoffin r =
     \<lparr>db = \<lparr>deceased = [caseUSD],
             coffin_issue = [\<lparr>ci_rfid = ''D2'', ci_coffin_id = 9, ci_quantity = Some 1\<rparr>],
             coffins = [\<lparr>c_coffin_id = 9, c_exact_price = JStr ''13000.00'',
                         c_currency = Some ''KES'', c_price_usd = JNull, c_exchange_rate = r\<rparr>],
             extra_charges = [], payments = [], charge_history = []\<rparr>,
      reads = 0, queries = 0, errorLog = []\<rparr>"

definition worldBadAmount :: world where
  "worldBadAmount =
     \<lparr>db = \<lparr>deceased = [case0], coffin_issue = [], coffins = [],
             extra_charges = [\<lparr>ec_deceased_id = ''D1'', ec_amount = JStr ''abc'',
                                ec_status = Some ''Pending''\<rparr>],
             payments = [], charge_history = []\<rparr>,
      reads = 0, queries = 0, errorLog = []\<rparr>"

definition coffinUSD :: "jsval \<Rightarrow> coffin_result" where
  "coffinUSD r = \<lparr>exact_price = JNull, coffin_currency = Some ''USD'',
     price_usd = JStr ''100.00'', exchange_rate = r, quantity = Some 1\<rparr>"

text \<open>
  A row without the three columns that the recalculation writes: what is left is the
  data of the case that the recalculation reads.
\<close>

definition unreconciled :: "deceased_row \<Rightarrow> deceased_row" where
  "unreconciled r = r\<lparr>d_total_mortuary_charge := JNull, d_last_charge_update := None,
                        d_balance := JNull\<rparr>"

text \<open>
  The audit entries that the specification expects of a pass over the given cases (step
  10 of its aggregator): for each case in turn, one entry of type \<open>daily_storage\<close> when
  the incremental storage charge of the case exceeds 0.01, and none otherwise. The
  incremental charge of a case is taken at the second of the two clock readings of its
  iteration; \<open>n\<close> counts the clock readings before the first case.
\<close>

fun auditEntries :: "env \<Rightarrow> nat \<Rightarrow> deceased_row list \<Rightarrow> charge_history_row list" where
  "auditEntries e n [] = []"
| "auditEntries e n (d # ds) =
     (if js_gt (incrementalCharge d (clock e (n + 1))) (Fin (1 / 100))
      then [\<lparr>ch_deceased_id = d_deceased_id d, ch_charge_type = ''daily_storage'',
             ch_amount = incrementalCharge d (clock e (n + 1)), ch_currency = cur d,
             ch_description = ''Daily mortuary charge (''
                @ toFixed 4 (incrementalDays d (clock e (n + 1))) @ '' days)''\<rparr>]
      else [])
     @ auditEntries e (n + 2) ds"

text \<open>
  A clock standing one and a half days after the admission of the example cases, and a
  world with the USD case alone. A world with the two cases of the audit examples.
\<close>

definition envHalf :: env where
  "envHalf = \<lparr>clock = (\<lambda>n. 129601000), fails = (\<lambda>n. False), getKenyanDateTime = ValidDate\<rparr>"

definition worldUSD :: world where
  "worldUSD = \<lparr>db = \<lparr>deceased = [caseUSD], coffin_issue = [], coffins = [],
                       extra_charges = [], payments = [], charge_history = []\<rparr>,
               reads = 0, queries = 0, errorLog = []\<rparr>"

definition worldAudit :: world where
  "worldAudit = \<lparr>db = \<lparr>deceased = [caseRecent, caseTiny], coffin_issue = [], coffins = [],
                         extra_charges = [], payments = [], charge_history = []\<rparr>,
                 reads = 0, queries = 0, errorLog = []\<rparr>"

text \<open>
  The first case with an embalming cost that is the text \<open>abc\<close>, and a world in which
  its only payment has that text as amount.
\<close>

definition caseBadEmbalming :: deceased_row where
  "caseBadEmbalming = case0\<lparr>d_embalming_cost := JStr ''abc''\<rparr>"

definition worldBadPayment :: world where
  "worldBadPayment =
     \<lparr>db = \<lparr>deceased = [case0], coffin_issue = [], coffins = [], extra_charges = [],
             payments = [\<lparr>p_deceased_id = ''D1'', p_amount = JStr ''abc''\<rparr>],
             charge_history = []\<rparr>,
      reads = 0, queries = 0, errorLog = []\<rparr>"

text \<open>The clock of a second run, five minutes after the clock of \<open>envOK\<close>.\<close>

definition envLater :: env where
  "envLater = \<lparr>clock = (\<lambda>n. 173101000), fails = (\<lambda>n. False), getKenyanDateTime = ValidDate\<rparr>"

section \<open>The financial summary of all cases\<close>

text \<open>
  \<^verbatim>\<open>getAllDeceasedWithFinancials\<close> runs one statement and returns its rows:
  \<^verbatim>\<open>
  SELECT d.id, d.deceased_id, ..., d.total_mortuary_charge, d.status,
    COALESCE(SUM(DISTINCT p.amount), 0) AS total_payments,
    COALESCE(SUM(DISTINCT ec.amount), 0) AS total_extra_charges,
    COALESCE(d.total_mortuary_charge, 0)
      + COALESCE(SUM(DISTINCT ec.amount), 0) AS total_charges,
    (COALESCE(d.total_mortuary_charge, 0)
      + COALESCE(SUM(DISTINCT ec.amount), 0)
      - COALESCE(SUM(DISTINCT p.amount), 0)) AS balance
  FROM deceased d
  LEFT JOIN payments p ON d.id = p.deceased_id
  LEFT JOIN extra_charges ec ON d.id = ec.deceased_id
  GROUP BY d.id
  ORDER BY d.date_registered DESC;
  \<close>
  The statement is evaluated by the database. A column value is NULL or a number, a text
  standing for the number of its longest numeric prefix (0 when it has none), which is
  also how the numeric \<open>d.id\<close> is compared with the text column \<open>deceased_id\<close>. The
  order of the result is not modelled; \<open>d.id\<close> is the key of the table, so each case is
  a group of its own.
\<close>

definition sql_text_number :: "string \<Rightarrow> jsnum" where
  "sql_text_number s =
     (case decimal_prefix (dropWhile is_ws s) of
        Some (Fin v, r) \<Rightarrow> Fin v
      | _ \<Rightarrow> Fin 0)"

fun sql_number :: "jsval \<Rightarrow> jsnum option" where
  "sql_number JNull = None"
| "sql_number (JNum n) = Some n"
| "sql_number (JStr s) = Some (sql_text_number s)"

text \<open>\<^verbatim>\<open>d.id = x.deceased_id\<close>\<close>

definition sql_id_eq :: "int \<Rightarrow> string \<Rightarrow> bool" where
  "sql_id_eq i k = (sql_text_number k = Fin (of_int i))"

text \<open>\<^verbatim>\<open>SUM(DISTINCT x)\<close> over a group: NULL when no value of the group is a number.\<close>

definition sum_distinct :: "jsval list \<Rightarrow> jsnum option" where
  "sum_distinct xs =
     (let vs = remdups (concat (map (\<lambda>x. case sql_number x of None \<Rightarrow> [] | Some v \<Rightarrow> [v]) xs))
      in if vs = [] then None else Some (foldl js_add (Fin 0) vs))"

text \<open>\<^verbatim>\<open>COALESCE(x, 0)\<close>\<close>

definition coalesce0 :: "jsnum option \<Rightarrow> jsnum" where
  "coalesce0 x = (case x of None \<Rightarrow> Fin 0 | Some v \<Rightarrow> v)"

record financial_row =
  f_id :: int
  f_deceased_id :: string
  f_total_mortuary_charge :: jsval
  f_total_payments :: jsnum
  f_total_extra_charges :: jsnum
  f_total_charges :: jsnum
  f_balance :: jsnum

definition getAllDeceasedWithFinancials :: "database \<Rightarrow> financial_row list" where
  "getAllDeceasedWithFinancials D =
     map (\<lambda>d.
       (let p_amounts = map p_amount (filter (\<lambda>p. sql_id_eq (d_id d) (p_deceased_id p)) (payments D));
            ec_amounts = map ec_amount
                           (filter (\<lambda>ec. sql_id_eq (d_id d) (ec_deceased_id ec)) (extra_charges D));
            total_payments = coalesce0 (sum_distinct p_amounts);
            total_extra_charges = coalesce0 (sum_distinct ec_amounts);
            mortuary = coalesce0 (sql_number (d_total_mortuary_charge d))
        in \<lparr>f_id = d_id d, f_deceased_id = d_deceased_id d,
             f_total_mortuary_charge = d_total_mortuary_charge d,
             f_total_payments = total_payments,
             f_total_extra_charges = total_extra_charges,
             f_total_charges = js_add mortuary total_extra_charges,
             f_balance = js_sub (js_add mortuary total_extra_charges) total_payments\<rparr>))
       (deceased D)"

text \<open>
  A case with the numeric id 7 and a text id that begins with 7, whose only extra charge,
  of 500, is cancelled.
\<close>

definition case7 :: deceased_row where
  "case7 = case0\<lparr>d_id := 7, d_deceased_id := ''7UP-M3X-ABC''\<rparr>"

definition worldCancelled :: world where
  "worldCancelled =
     \<lparr>db = \<lparr>deceased = [case7], coffin_issue = [], coffins = [],
             extra_charges = [\<lparr>ec_deceased_id = ''7UP-M3X-ABC'', ec_amount = JNum (Fin 500),
                                ec_status = Some ''Cancelled''\<rparr>],
             payments = [], charge_history = []\<rparr>,
      reads = 0, queries = 0, errorLog = []\<rparr>"

section \<open>Properties of the day count and of the storage charge\<close>

lemma read_number_small: "\<bar>v\<bar> \<le> 10 ^ 12 \<Longrightarrow> read_number v = Fin v"
proof -
  assume a: "\<bar>v\<bar> \<le> 10 ^ 12"
  have "(10::rat) ^ 12 < 2 ^ 1024 - 2 ^ 970" by simp
  then show ?thesis using a by (simp add: read_number_def)
qed

lemmas parse_defs = parseFloat_str_def decimal_prefix_def is_ws_def is_prefix_def is_digit_def
  exponent_part_def digits_val_def digit_val_def pow10_def js_inf_def string_to_number_def
  radix_literal_def read_number_small

lemma getFractionalDays_cases:
  "getFractionalDays s e =
     (case (s, e) of
        (ValidDate ts, ValidDate te) \<Rightarrow> if ts < te then Fin (of_int (te - ts) / 86400000) else Fin 0
      | _ \<Rightarrow> Fin 0)"
  by (cases s; cases e) (simp_all add: getFractionalDays_def js_sub_def Let_def)

lemma getFractionalDays_Fin: "\<exists>q. getFractionalDays s e = Fin q \<and> 0 \<le> q"
proof (cases "\<exists>ts te. s = ValidDate ts \<and> e = ValidDate te \<and> ts < te")
  case True
  then obtain ts te where h: "s = ValidDate ts" "e = ValidDate te" "ts < te" by blast
  have "getFractionalDays s e = Fin (of_int (te - ts) / 86400000)"
    using h by (simp add: getFractionalDays_cases)
  moreover have "(0::rat) \<le> of_int (te - ts) / 86400000"
    using h by simp
  ultimately show ?thesis by blast
next
  case False
  then have "getFractionalDays s e = Fin 0"
    by (cases s; cases e) (auto simp: getFractionalDays_cases)
  then show ?thesis by simp
qed

lemma baseRate_KES: "cur d \<noteq> ''USD'' \<Longrightarrow> baseRate d = Fin 5000 \<or> baseRate d = Fin 3000"
  by (simp add: baseRate_def)

lemma case0_cur: "cur case0 = ''KES''"
  by (simp add: cur_def case0_def)

lemma case0_admissionDate: "admissionDate case0 = ValidDate 1000"
  by (simp add: admissionDate_def case0_def)

lemma case0_rate_category: "d_rate_category case0 = Some ''standard''"
  by (simp add: case0_def)

lemma case0_baseRate: "baseRate case0 = Fin 3000"
  by (simp add: baseRate_def case0_def cur_def)

text \<open>
  C4. \<^verbatim>\<open>getFractionalDays\<close> never returns a negative number (nor NaN or an infinity),
  whatever the two dates, invalid dates included, and returns exactly 0 when the as-of
  time is at or before the start. Hence the storage charge of a case is 0 when the clock
  is at or before the admission date and the daily rate is a finite number, and it is a
  non-negative number at any time when the daily rate is a non-negative number, which it
  always is for a case not billed in USD.
\<close>

theorem accrued_days_nonneg:
  "(\<exists>q. getFractionalDays s e = Fin q \<and> 0 \<le> q)
   \<and> (te \<le> ts \<longrightarrow> getFractionalDays (ValidDate ts) (ValidDate te) = Fin 0)
   \<and> (admissionDate d = ValidDate ts \<and> te \<le> ts \<and> baseRate d = Fin r
        \<longrightarrow> totalStorageCharge d te = Fin 0)
   \<and> ((cur d \<noteq> ''USD'' \<or> (\<exists>r. baseRate d = Fin r \<and> 0 \<le> r))
        \<longrightarrow> (\<exists>c. totalStorageCharge d now = Fin c \<and> 0 \<le> c))"
proof (intro conjI impI)
  show "\<exists>q. getFractionalDays s e = Fin q \<and> 0 \<le> q" by (rule getFractionalDays_Fin)
next
  assume "te \<le> ts"
  then show "getFractionalDays (ValidDate ts) (ValidDate te) = Fin 0"
    by (simp add: getFractionalDays_cases)
next
  assume "admissionDate d = ValidDate ts \<and> te \<le> ts \<and> baseRate d = Fin r"
  then show "totalStorageCharge d te = Fin 0"
    by (simp add: totalStorageCharge_def totalDays_def getFractionalDays_cases)
next
  assume h: "cur d \<noteq> ''USD'' \<or> (\<exists>r. baseRate d = Fin r \<and> 0 \<le> r)"
  then obtain r where r: "baseRate d = Fin r" "0 \<le> r"
    using baseRate_KES [of d] by auto
  obtain q where q: "totalDays d now = Fin q" "0 \<le> q"
    using getFractionalDays_Fin [of "admissionDate d" "ValidDate now"]
    by (auto simp: totalDays_def)
  show "\<exists>c. totalStorageCharge d now = Fin c \<and> 0 \<le> c"
    using r q by (simp add: totalStorageCharge_def)
qed

theorem accrued_days_nonneg_witness:
  "(500::int) \<le> 1000 \<and> admissionDate case0 = ValidDate 1000 \<and> baseRate case0 = Fin 3000
   \<and> cur case0 \<noteq> ''USD''
   \<and> getFractionalDays (ValidDate 1000) (ValidDate 500) = Fin 0
   \<and> totalStorageCharge case0 500 = Fin 0
   \<and> (\<exists>c. totalStorageCharge case0 86401000 = Fin c \<and> 0 \<le> c)"
  using accrued_days_nonneg [of "ValidDate 1000" "ValidDate 500" 500 1000 case0 3000 86401000]
  by (simp add: case0_cur case0_admissionDate case0_baseRate)

section \<open>The daily rate\<close>

lemma caseUSD_cur: "cur caseUSD = ''USD''"
  by (simp add: cur_def caseUSD_def)

lemma caseUSD_usd_charge_rate: "d_usd_charge_rate caseUSD = JNull"
  by (simp add: caseUSD_def)

lemma caseUSD_admissionDate: "admissionDate caseUSD = ValidDate 1000"
  by (simp add: admissionDate_def caseUSD_def)

lemma caseUSD_baseRate: "baseRate caseUSD = Fin 130"
  by (simp add: baseRate_def cur_def caseUSD_def js_or_def)

lemma casePremium_cur: "cur casePremium = ''KES''"
  by (simp add: cur_def casePremium_def case0_def)

lemma casePremium_rate_category: "d_rate_category casePremium = Some ''premium''"
  by (simp add: casePremium_def)

lemma caseUSD150_truthy: "truthy (d_usd_charge_rate caseUSD150)"
  by (simp add: caseUSD150_def)

lemma caseUSD150_parse: "parseFloat (d_usd_charge_rate caseUSD150) = Fin 150"
  by (simp add: caseUSD150_def parse_defs Let_def)

lemma caseUSD150_cur: "cur caseUSD150 = ''USD''"
  by (simp add: cur_def caseUSD150_def caseUSD_def)

section \<open>One iteration of the loop\<close>

lemma select_after_insert:
  "select_coffins i (insert_charge_history r D) = select_coffins i D"
  "select_extra_charges i (insert_charge_history r D) = select_extra_charges i D"
  "select_payments i (insert_charge_history r D) = select_payments i D"
  "deceased (insert_charge_history r D) = deceased D"
  by (simp_all add: select_coffins_def select_extra_charges_def select_payments_def
        insert_charge_history_def)

lemma processCase_frame:
  "coffin_issue (db (world_of (processCase e now w d))) = coffin_issue (db w)
   \<and> coffins (db (world_of (processCase e now w d))) = coffins (db w)
   \<and> extra_charges (db (world_of (processCase e now w d))) = extra_charges (db w)
   \<and> payments (db (world_of (processCase e now w d))) = payments (db w)
   \<and> errorLog (world_of (processCase e now w d)) = errorLog w
   \<and> reads (world_of (processCase e now w d)) = reads w + 2"
  by (simp add: processCase_def Let_def saveChargeHistory_def safeQuery_def world_of_def
        insert_charge_history_def update_deceased_def)

lemma processCase_history:
  "charge_history (db (world_of (processCase e now w d))) =
     charge_history (db w) @
       (if js_gt (incrementalCharge d (clock e (reads w + 1))) (Fin (1 / 100)) \<and> \<not> fails e (queries w)
        then [\<lparr>ch_deceased_id = d_deceased_id d, ch_charge_type = ''daily_storage'',
               ch_amount = incrementalCharge d (clock e (reads w + 1)), ch_currency = cur d,
               ch_description = description (incrementalDays d (clock e (reads w + 1)))\<rparr>]
        else [])"
  by (simp add: processCase_def Let_def saveChargeHistory_def safeQuery_def world_of_def
        insert_charge_history_def update_deceased_def)

lemma processCase_Inl_deceased:
  "processCase e now w d = Inl (err, w') \<Longrightarrow> deceased (db w') = deceased (db w)"
  by (auto simp add: processCase_def Let_def saveChargeHistory_def safeQuery_def
        insert_charge_history_def update_deceased_def split: if_splits)

lemma processCase_Inr_deceased:
  "processCase e now w d = Inr w' \<Longrightarrow>
     deceased (db w') =
       deceased (update_deceased
         (newTotal (totalStorageCharge d (clock e (reads w)))
            (coffinCharges (cur d) (select_coffins (d_deceased_id d) (db w)))
            (extraCharges (select_extra_charges (d_deceased_id d) (db w))) (embalming d))
         now
         (balance
           (newTotal (totalStorageCharge d (clock e (reads w)))
              (coffinCharges (cur d) (select_coffins (d_deceased_id d) (db w)))
              (extraCharges (select_extra_charges (d_deceased_id d) (db w))) (embalming d))
           (totalPayments (select_payments (d_deceased_id d) (db w))))
         (d_deceased_id d) (db w))"
  by (auto simp add: processCase_def Let_def saveChargeHistory_def safeQuery_def
        select_after_insert update_deceased_def split: if_splits)


lemma world_of_simps [simp]: "world_of (Inl (err, w)) = w" "world_of (Inr w) = w"
  by (simp_all add: world_of_def)

lemma forLoop_append:
  "forLoop e now w (xs @ ys) =
     (case forLoop e now w xs of Inl err \<Rightarrow> Inl err | Inr w' \<Rightarrow> forLoop e now w' ys)"
  by (induction xs arbitrary: w) (auto split: sum.splits)

lemma forLoop_frame:
  "coffin_issue (db (world_of (forLoop e now w ds))) = coffin_issue (db w)
   \<and> coffins (db (world_of (forLoop e now w ds))) = coffins (db w)
   \<and> extra_charges (db (world_of (forLoop e now w ds))) = extra_charges (db w)
   \<and> payments (db (world_of (forLoop e now w ds))) = payments (db w)
   \<and> errorLog (world_of (forLoop e now w ds)) = errorLog w"
proof (induction ds arbitrary: w)
  case Nil
  show ?case by simp
next
  case (Cons d ds)
  show ?case
  proof (cases "processCase e now w d")
    case (Inl a)
    then show ?thesis using processCase_frame [of e now w d] by (cases a) simp
  next
    case (Inr w')
    then show ?thesis using processCase_frame [of e now w d] Cons.IH [of w'] by simp
  qed
qed

text \<open>Rows whose id is not among the processed cases stay as they are.\<close>

lemma update_deceased_other:
  "r \<in> set (deceased D) \<Longrightarrow> d_deceased_id r \<noteq> i \<Longrightarrow> r \<in> set (deceased (update_deceased t n b i D))"
  by (auto simp: update_deceased_def image_iff intro!: bexI [of _ r])

lemma processCase_other:
  assumes "r \<in> set (deceased (db w))" "d_deceased_id r \<noteq> d_deceased_id d"
  shows "r \<in> set (deceased (db (world_of (processCase e now w d))))"
proof (cases "processCase e now w d")
  case (Inl a)
  then show ?thesis using assms processCase_Inl_deceased [of e now w d "fst a" "snd a"]
    by (cases a) simp
next
  case (Inr w')
  then show ?thesis using assms processCase_Inr_deceased [OF Inr] update_deceased_other
    by simp
qed

lemma forLoop_other:
  "r \<in> set (deceased (db w)) \<Longrightarrow> d_deceased_id r \<notin> d_deceased_id ` set ds \<Longrightarrow>
     r \<in> set (deceased (db (world_of (forLoop e now w ds))))"
proof (induction ds arbitrary: w)
  case Nil
  then show ?case by simp
next
  case (Cons d ds)
  show ?case
  proof (cases "processCase e now w d")
    case (Inl a)
    then show ?thesis using Cons.prems processCase_other [of r w d e now] by (cases a) simp
  next
    case (Inr w')
    then show ?thesis using Cons.prems processCase_other [of r w d e now] Cons.IH [of w'] by simp
  qed
qed

section \<open>The balance identity\<close>

lemma balance_identity_payments:
  "payments D' = payments D \<Longrightarrow> balance_identity D' r = balance_identity D r"
  by (simp add: balance_identity_def select_payments_def)

lemma balance_identity_updated:
  "balance_identity D (r\<lparr>d_total_mortuary_charge := JNum t, d_last_charge_update := u,
       d_balance := JNum (balance t (totalPayments (select_payments (d_deceased_id r) D)))\<rparr>)"
  by (simp add: balance_identity_def balance_def)

lemma update_deceased_balance_identity:
  assumes r': "r' \<in> set (deceased (update_deceased t n (balance t (totalPayments (select_payments i D))) i D))"
  shows "(d_deceased_id r' = i \<and> balance_identity D r') \<or> (d_deceased_id r' \<noteq> i \<and> r' \<in> set (deceased D))"
proof -
  define f where "f = (\<lambda>r::deceased_row. if d_deceased_id r = i
                   then r\<lparr>d_total_mortuary_charge := JNum t, d_last_charge_update := Some n,
                          d_balance := JNum (balance t (totalPayments (select_payments i D)))\<rparr>
                   else r)"
  have "deceased (update_deceased t n (balance t (totalPayments (select_payments i D))) i D)
          = map f (deceased D)"
    by (simp add: update_deceased_def f_def)
  with r' have "r' \<in> f ` set (deceased D)" by simp
  then obtain r where r: "r \<in> set (deceased D)" and eq': "r' = f r" by blast
  have eq: "r' = (if d_deceased_id r = i
                   then r\<lparr>d_total_mortuary_charge := JNum t, d_last_charge_update := Some n,
                          d_balance := JNum (balance t (totalPayments (select_payments i D)))\<rparr>
                   else r)"
    using eq' by (simp only: f_def)
  show ?thesis
  proof (cases "d_deceased_id r = i")
    case True
    then have "r' = r\<lparr>d_total_mortuary_charge := JNum t, d_last_charge_update := Some n,
                      d_balance := JNum (balance t (totalPayments (select_payments (d_deceased_id r) D)))\<rparr>"
      using eq by simp
    then have "balance_identity D r'" by (simp only: balance_identity_updated)
    moreover have "d_deceased_id r' = i" using eq True by simp
    ultimately show ?thesis by simp
  next
    case False
    then show ?thesis using eq r by simp
  qed
qed

lemma processCase_Inr_rows:
  assumes ok: "processCase e now w d = Inr w'" and r': "r' \<in> set (deceased (db w'))"
  shows "(d_deceased_id r' = d_deceased_id d \<and> balance_identity (db w') r')
         \<or> (d_deceased_id r' \<noteq> d_deceased_id d \<and> r' \<in> set (deceased (db w)))"
proof -
  have p: "payments (db w') = payments (db w)"
    using processCase_frame [of e now w d] ok by simp
  have "(d_deceased_id r' = d_deceased_id d \<and> balance_identity (db w) r')
         \<or> (d_deceased_id r' \<noteq> d_deceased_id d \<and> r' \<in> set (deceased (db w)))"
    using r' unfolding processCase_Inr_deceased [OF ok] balance_def [symmetric]
    by (rule update_deceased_balance_identity)
  then show ?thesis by (simp add: balance_identity_payments [OF p])
qed

lemma processCase_balance_identity:
  assumes inv: "\<forall>r \<in> set (deceased (db w)). d_deceased_id r \<in> ids \<longrightarrow> balance_identity (db w) r"
  shows "\<forall>r \<in> set (deceased (db (world_of (processCase e now w d)))).
           d_deceased_id r \<in> ids \<longrightarrow> balance_identity (db (world_of (processCase e now w d))) r"
proof (cases "processCase e now w d")
  case (Inl a)
  obtain err w' where a: "a = (err, w')" by (cases a)
  have dd: "deceased (db w') = deceased (db w)"
    using Inl a processCase_Inl_deceased by simp
  have p: "payments (db w') = payments (db w)"
    using processCase_frame [of e now w d] Inl a by simp
  show ?thesis using inv Inl a by (simp add: balance_identity_payments [OF p] dd)
next
  case (Inr w')
  have p: "payments (db w') = payments (db w)"
    using processCase_frame [of e now w d] Inr by simp
  have "\<forall>r \<in> set (deceased (db w')). d_deceased_id r \<in> ids \<longrightarrow> balance_identity (db w') r"
  proof (intro ballI impI)
    fix r assume r: "r \<in> set (deceased (db w'))" and i: "d_deceased_id r \<in> ids"
    from processCase_Inr_rows [OF Inr r] show "balance_identity (db w') r"
    proof
      assume "d_deceased_id r = d_deceased_id d \<and> balance_identity (db w') r"
      then show ?thesis by simp
    next
      assume "d_deceased_id r \<noteq> d_deceased_id d \<and> r \<in> set (deceased (db w))"
      then have "balance_identity (db w) r" using inv i by blast
      then show ?thesis by (simp add: balance_identity_payments [OF p])
    qed
  qed
  then show ?thesis using Inr by simp
qed

lemma processCase_establishes:
  assumes ok: "processCase e now w d = Inr w'"
      and r: "r \<in> set (deceased (db w'))" "d_deceased_id r = d_deceased_id d"
  shows "balance_identity (db w') r"
  using processCase_Inr_rows [OF ok r(1)] r(2) by simp

lemma forLoop_balance_identity_keep:
  "\<forall>r \<in> set (deceased (db w)). d_deceased_id r \<in> ids \<longrightarrow> balance_identity (db w) r \<Longrightarrow>
   \<forall>r \<in> set (deceased (db (world_of (forLoop e now w ds)))).
      d_deceased_id r \<in> ids \<longrightarrow> balance_identity (db (world_of (forLoop e now w ds))) r"
proof (induction ds arbitrary: w)
  case Nil
  then show ?case by simp
next
  case (Cons d ds)
  show ?case
  proof (cases "processCase e now w d")
    case (Inl a)
    then show ?thesis using processCase_balance_identity [OF Cons.prems, of e now d] by (cases a) simp
  next
    case (Inr w')
    then show ?thesis
      using processCase_balance_identity [OF Cons.prems, of e now d] Cons.IH [of w'] by simp
  qed
qed

lemma forLoop_balance_identity_done:
  "forLoop e now w ds = Inr w' \<Longrightarrow>
   \<forall>r \<in> set (deceased (db w')). d_deceased_id r \<in> d_deceased_id ` set ds \<longrightarrow> balance_identity (db w') r"
proof (induction ds arbitrary: w w' rule: rev_induct)
  case Nil
  then show ?case by simp
next
  case (snoc d ds)
  from snoc.prems obtain w1 where w1: "forLoop e now w ds = Inr w1"
    and d: "processCase e now w1 d = Inr w'"
    by (auto simp: forLoop_append split: sum.splits)
  have keep: "\<forall>r \<in> set (deceased (db w')). d_deceased_id r \<in> d_deceased_id ` set ds \<longrightarrow> balance_identity (db w') r"
    using processCase_balance_identity [OF snoc.IH [OF w1], of e now d] d by simp
  show ?case
    using keep processCase_establishes [OF d] by auto
qed

lemma updateMortuaryCharges_ok:
  assumes "\<not> fails e (queries w)"
  shows "updateMortuaryCharges e w =
     (case forLoop e (getKenyanDateTime e (clock e (reads w)))
             (w\<lparr>reads := reads w + 1, queries := queries w + 1\<rparr>) (select_deceased (db w)) of
        Inl err \<Rightarrow> catch err
      | Inr w2 \<Rightarrow> w2)"
  using assms by (simp add: updateMortuaryCharges_def safeQuery_def Let_def)

lemma db_catch: "db (catch (err, w)) = db w"
  by (simp add: catch_def)

lemma updateMortuaryCharges_db:
  assumes "\<not> fails e (queries w)"
  shows "db (updateMortuaryCharges e w) =
     db (world_of (forLoop e (getKenyanDateTime e (clock e (reads w)))
             (w\<lparr>reads := reads w + 1, queries := queries w + 1\<rparr>) (select_deceased (db w))))"
proof (cases "forLoop e (getKenyanDateTime e (clock e (reads w)))
             (w\<lparr>reads := reads w + 1, queries := queries w + 1\<rparr>) (select_deceased (db w))")
  case (Inl a)
  then show ?thesis using updateMortuaryCharges_ok [OF assms] by (cases a) (simp add: db_catch)
next
  case (Inr b)
  then show ?thesis using updateMortuaryCharges_ok [OF assms] by simp
qed

lemmas run_defs = updateMortuaryCharges_def forLoop.simps processCase_def safeQuery_def
  saveChargeHistory_def Let_def select_deceased_def select_coffins_def
  select_extra_charges_def select_payments_def update_deceased_def insert_charge_history_def
  catch_def

lemmas calc_defs = cur_def baseRate_def admissionDate_def totalDays_def totalStorageCharge_def
  lastUpdate_def incrementalDays_def incrementalCharge_def getFractionalDays_cases
  coffinCharges_def extraCharges_def embalming_def totalPayments_def newTotal_def balance_def
  js_or_def js_sub_def

lemma processCase_no_failure:
  assumes "\<forall>n. \<not> fails e n"
  shows "\<exists>w'. processCase e now w d = Inr w'"
  using assms by (simp add: processCase_def Let_def saveChargeHistory_def safeQuery_def)

lemma forLoop_no_failure:
  assumes "\<forall>n. \<not> fails e n"
  shows "\<exists>w'. forLoop e now w ds = Inr w'"
proof (induction ds arbitrary: w)
  case Nil
  show ?case by simp
next
  case (Cons d ds)
  obtain w1 where "processCase e now w d = Inr w1"
    using processCase_no_failure [OF assms] by blast
  then show ?case using Cons.IH [of w1] by simp
qed

text \<open>
  C1. After a run of \<^verbatim>\<open>updateMortuaryCharges\<close>, every row of a case that the run
  processed (the cases \<open>pre\<close> whose iteration completed, which are all the selected
  cases when no query throws) holds a balance equal to its stored total charge minus the
  sum of the payments of the case, whatever happened to the cases after them. The
  identity is the subtraction the code performs on Numbers; rounding to two decimals by
  the column type is outside the model.
\<close>

theorem balance_identity_after_run:
  assumes sel: "\<not> fails e (queries w)"
      and cases: "select_deceased (db w) = pre @ post"
      and pre: "forLoop e (getKenyanDateTime e (clock e (reads w)))
                  (w\<lparr>reads := reads w + 1, queries := queries w + 1\<rparr>) pre = Inr w1"
  shows "\<forall>r \<in> set (deceased (db (updateMortuaryCharges e w))).
           d_deceased_id r \<in> d_deceased_id ` set pre \<longrightarrow>
           balance_identity (db (updateMortuaryCharges e w)) r"
proof -
  let ?now = "getKenyanDateTime e (clock e (reads w))"
  have "forLoop e ?now (w\<lparr>reads := reads w + 1, queries := queries w + 1\<rparr>) (pre @ post)
          = forLoop e ?now w1 post"
    using pre by (simp add: forLoop_append)
  then have d: "db (updateMortuaryCharges e w) = db (world_of (forLoop e ?now w1 post))"
    using updateMortuaryCharges_db [OF sel] cases by simp
  show ?thesis
    unfolding d by (rule forLoop_balance_identity_keep [OF forLoop_balance_identity_done [OF pre]])
qed

lemma worldPaid_select: "select_deceased (db worldPaid) = [case0, caseUSD] @ []"
  by (simp add: select_deceased_def worldPaid_def dbPaid_def case0_def caseUSD_def)

lemma empty_sums:
  "coffinCharges cu [] = Fin 0" "extraCharges [] = Fin 0" "totalPayments [] = Fin 0"
  by (simp_all add: coffinCharges_def extraCharges_def totalPayments_def)

lemma case0_values:
  "d_deceased_id case0 = ''D1''"
  "d_created_at case0 = Some (ValidDate 0)"
  "d_status case0 = None"
  "totalStorageCharge case0 172801000 = Fin 6000"
  "js_gt (incrementalCharge case0 172801000) (Fin (1 / 100))"
  "embalming case0 = Fin 0"
  by (simp_all add: calc_defs case0_def)

lemma caseUSD_values:
  "d_deceased_id caseUSD = ''D2''"
  "d_created_at caseUSD = Some (ValidDate 0)"
  "d_status caseUSD = None"
  "totalStorageCharge caseUSD 172801000 = Fin 260"
  "js_gt (incrementalCharge caseUSD 172801000) (Fin (1 / 100))"
  "embalming caseUSD = Fin 0"
  by (simp_all add: calc_defs caseUSD_def)

lemma paid_2000: "totalPayments [JStr ''2000.00''] = Fin 2000"
  by (simp add: totalPayments_def js_or_def parse_defs Let_def)

lemma worldPaid_deceased:
  "deceased (db (updateMortuaryCharges envOK worldPaid)) =
     [case0\<lparr>d_total_mortuary_charge := JNum (Fin 6000),
            d_last_charge_update := Some (ValidDate 172801000), d_balance := JNum (Fin 4000)\<rparr>,
      caseUSD\<lparr>d_total_mortuary_charge := JNum (Fin 260),
            d_last_charge_update := Some (ValidDate 172801000), d_balance := JNum (Fin 260)\<rparr>]"
  by (simp add: run_defs envOK_def worldPaid_def dbPaid_def case0_values caseUSD_values
        case0_cur caseUSD_cur paid_2000 empty_sums newTotal_def balance_def js_sub_def)


theorem balance_identity_after_run_witness:
  "\<not> fails envOK (queries worldPaid)
   \<and> select_deceased (db worldPaid) = [case0, caseUSD] @ []
   \<and> (\<exists>w1. forLoop envOK (getKenyanDateTime envOK (clock envOK (reads worldPaid)))
        (worldPaid\<lparr>reads := reads worldPaid + 1, queries := queries worldPaid + 1\<rparr>)
        [case0, caseUSD] = Inr w1)
   \<and> deceased (db (updateMortuaryCharges envOK worldPaid)) =
       [case0\<lparr>d_total_mortuary_charge := JNum (Fin 6000),
              d_last_charge_update := Some (ValidDate 172801000), d_balance := JNum (Fin 4000)\<rparr>,
        caseUSD\<lparr>d_total_mortuary_charge := JNum (Fin 260),
              d_last_charge_update := Some (ValidDate 172801000), d_balance := JNum (Fin 260)\<rparr>]
   \<and> balance_identity (db (updateMortuaryCharges envOK worldPaid))
        (case0\<lparr>d_total_mortuary_charge := JNum (Fin 6000),
            d_last_charge_update := Some (ValidDate 172801000), d_balance := JNum (Fin 4000)\<rparr>)
   \<and> balance_identity (db (updateMortuaryCharges envOK worldPaid))
        (caseUSD\<lparr>d_total_mortuary_charge := JNum (Fin 260),
            d_last_charge_update := Some (ValidDate 172801000), d_balance := JNum (Fin 260)\<rparr>)"
proof -
  have f: "\<not> fails envOK (queries worldPaid)" by (simp add: envOK_def)
  have nf: "\<forall>n. \<not> fails envOK n" by (simp add: envOK_def)
  obtain w1 where w1: "forLoop envOK (getKenyanDateTime envOK (clock envOK (reads worldPaid)))
        (worldPaid\<lparr>reads := reads worldPaid + 1, queries := queries worldPaid + 1\<rparr>)
        [case0, caseUSD] = Inr w1"
    using forLoop_no_failure [OF nf] by blast
  note t = balance_identity_after_run [OF f worldPaid_select w1]
  have a: "balance_identity (db (updateMortuaryCharges envOK worldPaid))
        (case0\<lparr>d_total_mortuary_charge := JNum (Fin 6000),
            d_last_charge_update := Some (ValidDate 172801000), d_balance := JNum (Fin 4000)\<rparr>)"
    using t by (simp add: worldPaid_deceased)
  have b: "balance_identity (db (updateMortuaryCharges envOK worldPaid))
        (caseUSD\<lparr>d_total_mortuary_charge := JNum (Fin 260),
            d_last_charge_update := Some (ValidDate 172801000), d_balance := JNum (Fin 260)\<rparr>)"
    using t by (simp add: worldPaid_deceased)
  show ?thesis using f worldPaid_select w1 a b worldPaid_deceased by blast
qed

lemma caseRecent_values:
  "d_deceased_id caseRecent = ''D1''"
  "cur caseRecent = ''KES''"
  "incrementalDays caseRecent 172801000 = Fin (1 / 60)"
  "incrementalCharge caseRecent 172801000 = Fin 50"
  by (simp_all add: calc_defs caseRecent_def case0_def)

lemma caseTiny_parse: "parseFloat_str ''86400'' = Fin 86400"
  by (simp add: parse_defs Let_def)

lemma caseTiny_values:
  "d_deceased_id caseTiny = ''D2''"
  "cur caseTiny = ''USD''"
  "incrementalDays caseTiny 172801000 = Fin (1 / 86400000)"
  "incrementalCharge caseTiny 172801000 = Fin (1 / 1000)"
  by (simp_all add: calc_defs caseTiny_def caseUSD_def caseTiny_parse)

lemma toFixed_sixtieth: "toFixed 4 (Fin (1 / 60)) = ''0.0167''"
  by code_simp

lemma envOK_values: "clock envOK n = 172801000" "fails envOK n = False"
  by (simp_all add: envOK_def)

lemma worldPaid_values: "charge_history (db worldPaid) = []" "queries worldPaid = 0"
  "reads worldPaid = 0"
  by (simp_all add: worldPaid_def dbPaid_def)

section \<open>Failures\<close>

lemma processCase_update_fails:
  assumes big: "js_gt (incrementalCharge d (clock e (reads w + 1))) (Fin (1 / 100))"
      and ok: "\<not> fails e (queries w)" "\<not> fails e (queries w + 1)"
              "\<not> fails e (queries w + 2)" "\<not> fails e (queries w + 3)"
      and upd: "fails e (queries w + 4)"
  shows "\<exists>w'. processCase e now w d = Inl (QueryFailed (queries w + 4), w')"
  using assms
  by (simp add: processCase_def Let_def saveChargeHistory_def safeQuery_def eval_nat_numeral)

text \<open>
  C10. Within one iteration the audit row is inserted before the update of the case is
  attempted (the insert is the first query of the iteration, the update the fifth). When
  the incremental charge exceeds 0.01, the insert and the three selects succeed and the
  update throws, the iteration ends with that error, the audit row is in the charge
  history and the row of the case is as it was: nothing undoes the insert.
\<close>

theorem audit_row_outlives_failed_update:
  assumes big: "js_gt (incrementalCharge d (clock e (reads w + 1))) (Fin (1 / 100))"
      and ok: "\<not> fails e (queries w)" "\<not> fails e (queries w + 1)"
              "\<not> fails e (queries w + 2)" "\<not> fails e (queries w + 3)"
      and upd: "fails e (queries w + 4)"
  shows "\<exists>w'. processCase e now w d = Inl (QueryFailed (queries w + 4), w')
           \<and> charge_history (db w') =
               charge_history (db w) @
                 [\<lparr>ch_deceased_id = d_deceased_id d, ch_charge_type = ''daily_storage'',
                   ch_amount = incrementalCharge d (clock e (reads w + 1)), ch_currency = cur d,
                   ch_description = description (incrementalDays d (clock e (reads w + 1)))\<rparr>]
           \<and> deceased (db w') = deceased (db w)"
proof -
  obtain w' where w': "processCase e now w d = Inl (QueryFailed (queries w + 4), w')"
    using processCase_update_fails [OF assms] by blast
  have "charge_history (db w') =
               charge_history (db w) @
                 [\<lparr>ch_deceased_id = d_deceased_id d, ch_charge_type = ''daily_storage'',
                   ch_amount = incrementalCharge d (clock e (reads w + 1)), ch_currency = cur d,
                   ch_description = description (incrementalDays d (clock e (reads w + 1)))\<rparr>]"
    using processCase_history [of e now w d] w' big ok(1) by simp
  moreover have "deceased (db w') = deceased (db w)"
    using processCase_Inl_deceased [OF w'] .
  ultimately show ?thesis using w' by blast
qed

lemma envFail_values: "clock (envFail k) n = 172801000" "fails (envFail k) n = (n = k)"
  "getKenyanDateTime (envFail k) = ValidDate"
  by (simp_all add: envFail_def)

lemma worldOne_values: "charge_history (db worldOne) = []" "queries worldOne = 0"
  "reads worldOne = 0" "deceased (db worldOne) = [case0]"
  by (simp_all add: worldOne_def dbPaid_def)

lemma case0_incremental:
  "incrementalCharge case0 172801000 = Fin (864005 / 144)"
  "incrementalDays case0 172801000 = Fin (172801 / 86400)"
  by (simp_all add: calc_defs case0_def)

theorem audit_row_outlives_failed_update_witness:
  "js_gt (incrementalCharge case0 (clock (envFail 4) (reads worldOne + 1))) (Fin (1 / 100))
   \<and> \<not> fails (envFail 4) (queries worldOne) \<and> \<not> fails (envFail 4) (queries worldOne + 1)
   \<and> \<not> fails (envFail 4) (queries worldOne + 2) \<and> \<not> fails (envFail 4) (queries worldOne + 3)
   \<and> fails (envFail 4) (queries worldOne + 4)
   \<and> (\<exists>w'. processCase (envFail 4) (ValidDate 172801000) worldOne case0 = Inl (QueryFailed 4, w')
         \<and> charge_history (db w') =
              [\<lparr>ch_deceased_id = ''D1'', ch_charge_type = ''daily_storage'',
                ch_amount = Fin (864005 / 144), ch_currency = ''KES'',
                ch_description = description (Fin (172801 / 86400))\<rparr>]
         \<and> deceased (db w') = [case0])"
proof -
  have big: "js_gt (incrementalCharge case0 (clock (envFail 4) (reads worldOne + 1))) (Fin (1 / 100))"
    by (simp add: envFail_values case0_incremental)
  have ok: "\<not> fails (envFail 4) (queries worldOne)" "\<not> fails (envFail 4) (queries worldOne + 1)"
    "\<not> fails (envFail 4) (queries worldOne + 2)" "\<not> fails (envFail 4) (queries worldOne + 3)"
    by (simp_all add: envFail_values worldOne_values)
  have upd: "fails (envFail 4) (queries worldOne + 4)"
    by (simp add: envFail_values worldOne_values)
  have "\<exists>w'. processCase (envFail 4) (ValidDate 172801000) worldOne case0 = Inl (QueryFailed 4, w')
         \<and> charge_history (db w') =
              [\<lparr>ch_deceased_id = ''D1'', ch_charge_type = ''daily_storage'',
                ch_amount = Fin (864005 / 144), ch_currency = ''KES'',
                ch_description = description (Fin (172801 / 86400))\<rparr>]
         \<and> deceased (db w') = [case0]"
    using audit_row_outlives_failed_update [OF big ok upd, of "ValidDate 172801000"]
    by (simp add: envFail_values worldOne_values case0_incremental case0_cur case0_values)
  then show ?thesis using big ok upd by blast
qed


lemma select_deceased_subset: "set (select_deceased D) \<subseteq> set (deceased D)"
  by (auto simp: select_deceased_def)

text \<open>
  C2, as the code has it. The only \<^verbatim>\<open>try\<close> block encloses the whole loop. When the
  iteration of a case throws, after the cases \<open>pre\<close> were processed, the run ends there:
  the error is appended to the log and the function returns normally with the database as
  it was at the throw. The cases \<open>post\<close> that follow in iteration order play no part in
  the result: their rows are left as they were selected (unless an earlier case of the
  run had the same id), and the table of cases is what the cases \<open>pre\<close> made it.
\<close>

theorem failure_ends_the_run:
  assumes sel: "\<not> fails e (queries w)"
      and cases: "select_deceased (db w) = pre @ d # post"
      and pre: "forLoop e (getKenyanDateTime e (clock e (reads w)))
                  (w\<lparr>reads := reads w + 1, queries := queries w + 1\<rparr>) pre = Inr w1"
      and fail: "processCase e (getKenyanDateTime e (clock e (reads w))) w1 d = Inl (err, w2)"
  shows "updateMortuaryCharges e w = w2\<lparr>reads := reads w2 + 1, errorLog := errorLog w2 @ [err]\<rparr>
         \<and> deceased (db (updateMortuaryCharges e w)) = deceased (db w1)
         \<and> (\<forall>r \<in> set post. d_deceased_id r \<notin> d_deceased_id ` set pre
               \<longrightarrow> r \<in> set (deceased (db (updateMortuaryCharges e w))))"
proof -
  let ?now = "getKenyanDateTime e (clock e (reads w))"
  let ?w0 = "w\<lparr>reads := reads w + 1, queries := queries w + 1\<rparr>"
  have loop: "forLoop e ?now ?w0 (pre @ d # post) = Inl (err, w2)"
    using pre fail by (simp add: forLoop_append)
  have run: "updateMortuaryCharges e w = w2\<lparr>reads := reads w2 + 1, errorLog := errorLog w2 @ [err]\<rparr>"
    using updateMortuaryCharges_ok [OF sel] cases loop by (simp add: catch_def)
  have same: "deceased (db w2) = deceased (db w1)"
    using processCase_Inl_deceased [OF fail] .
  have rows: "deceased (db (updateMortuaryCharges e w)) = deceased (db w1)"
    using run same by simp
  have post: "\<forall>r \<in> set post. d_deceased_id r \<notin> d_deceased_id ` set pre
               \<longrightarrow> r \<in> set (deceased (db (updateMortuaryCharges e w)))"
  proof (intro ballI impI)
    fix r assume r: "r \<in> set post" and other: "d_deceased_id r \<notin> d_deceased_id ` set pre"
    have "r \<in> set (select_deceased (db w))" using r cases by simp
    then have "r \<in> set (deceased (db ?w0))" using select_deceased_subset by fastforce
    then have "r \<in> set (deceased (db (world_of (forLoop e ?now ?w0 pre))))"
      using other by (rule forLoop_other)
    then show "r \<in> set (deceased (db (updateMortuaryCharges e w)))"
      using pre rows by simp
  qed
  show ?thesis using run rows post by blast
qed

lemma worldPaid_select2: "select_deceased (db worldPaid) = [] @ case0 # [caseUSD]"
  using worldPaid_select by simp

lemma worldPaid_fields: "deceased (db worldPaid) = [case0, caseUSD]" "queries worldPaid = 0"
  "reads worldPaid = 0" "errorLog worldPaid = []"
  by (simp_all add: worldPaid_def dbPaid_def)

lemma worldPaid_fail5:
  "\<exists>w2. processCase (envFail 5) (getKenyanDateTime (envFail 5) (clock (envFail 5) (reads worldPaid)))
     (worldPaid\<lparr>reads := reads worldPaid + 1, queries := queries worldPaid + 1\<rparr>) case0
     = Inl (QueryFailed 5, w2)"
proof -
  let ?w = "worldPaid\<lparr>reads := reads worldPaid + 1, queries := queries worldPaid + 1\<rparr>"
  have q: "queries ?w = 1" by (simp add: worldPaid_fields)
  have "\<exists>w'. processCase (envFail 5) (getKenyanDateTime (envFail 5) (clock (envFail 5) (reads worldPaid))) ?w case0
          = Inl (QueryFailed (queries ?w + 4), w')"
    by (rule processCase_update_fails)
       (simp_all add: envFail_values case0_incremental worldPaid_fields)
  then show ?thesis by (simp add: worldPaid_fields)
qed

theorem failure_ends_the_run_witness:
  "\<not> fails (envFail 5) (queries worldPaid)
   \<and> select_deceased (db worldPaid) = [] @ case0 # [caseUSD]
   \<and> forLoop (envFail 5) (getKenyanDateTime (envFail 5) (clock (envFail 5) (reads worldPaid)))
        (worldPaid\<lparr>reads := reads worldPaid + 1, queries := queries worldPaid + 1\<rparr>) []
       = Inr (worldPaid\<lparr>reads := reads worldPaid + 1, queries := queries worldPaid + 1\<rparr>)
   \<and> (\<exists>w2. processCase (envFail 5) (getKenyanDateTime (envFail 5) (clock (envFail 5) (reads worldPaid)))
          (worldPaid\<lparr>reads := reads worldPaid + 1, queries := queries worldPaid + 1\<rparr>) case0
          = Inl (QueryFailed 5, w2)
        \<and> updateMortuaryCharges (envFail 5) worldPaid
            = w2\<lparr>reads := reads w2 + 1, errorLog := errorLog w2 @ [QueryFailed 5]\<rparr>)
   \<and> deceased (db (updateMortuaryCharges (envFail 5) worldPaid)) = [case0, caseUSD]
   \<and> caseUSD \<in> set (deceased (db (updateMortuaryCharges (envFail 5) worldPaid)))"
proof -
  have f: "\<not> fails (envFail 5) (queries worldPaid)"
    by (simp add: envFail_values worldPaid_fields)
  have l: "forLoop (envFail 5) (getKenyanDateTime (envFail 5) (clock (envFail 5) (reads worldPaid)))
        (worldPaid\<lparr>reads := reads worldPaid + 1, queries := queries worldPaid + 1\<rparr>) []
       = Inr (worldPaid\<lparr>reads := reads worldPaid + 1, queries := queries worldPaid + 1\<rparr>)"
    by simp
  obtain w2 where w2: "processCase (envFail 5) (getKenyanDateTime (envFail 5) (clock (envFail 5) (reads worldPaid)))
          (worldPaid\<lparr>reads := reads worldPaid + 1, queries := queries worldPaid + 1\<rparr>) case0
          = Inl (QueryFailed 5, w2)"
    using worldPaid_fail5 by blast
  note t = failure_ends_the_run [OF f worldPaid_select2 l w2]
  have a: "updateMortuaryCharges (envFail 5) worldPaid
            = w2\<lparr>reads := reads w2 + 1, errorLog := errorLog w2 @ [QueryFailed 5]\<rparr>"
    using t by blast
  have b: "deceased (db (updateMortuaryCharges (envFail 5) worldPaid)) = [case0, caseUSD]"
    using conjunct1 [OF conjunct2 [OF t]] by (simp add: worldPaid_fields)
  have c: "caseUSD \<in> set (deceased (db (updateMortuaryCharges (envFail 5) worldPaid)))"
    using conjunct2 [OF conjunct2 [OF t]] by simp
  show ?thesis using f worldPaid_select2 l w2 a b c by blast
qed


lemma run_fail5_errorLog:
  "errorLog (updateMortuaryCharges (envFail 5) worldPaid) = [QueryFailed 5]"
proof -
  obtain w2 where w2: "processCase (envFail 5) (getKenyanDateTime (envFail 5) (clock (envFail 5) (reads worldPaid)))
          (worldPaid\<lparr>reads := reads worldPaid + 1, queries := queries worldPaid + 1\<rparr>) case0
          = Inl (QueryFailed 5, w2)"
    using worldPaid_fail5 by blast
  have f: "\<not> fails (envFail 5) (queries worldPaid)"
    by (simp add: envFail_values worldPaid_fields)
  have "errorLog w2 = []"
    using processCase_frame [of "envFail 5" "getKenyanDateTime (envFail 5) (clock (envFail 5) (reads worldPaid))"
        "worldPaid\<lparr>reads := reads worldPaid + 1, queries := queries worldPaid + 1\<rparr>" case0] w2
    by (simp add: worldPaid_fields)
  moreover have "forLoop (envFail 5) (getKenyanDateTime (envFail 5) (clock (envFail 5) (reads worldPaid)))
          (worldPaid\<lparr>reads := reads worldPaid + 1, queries := queries worldPaid + 1\<rparr>)
          (select_deceased (db worldPaid)) = Inl (QueryFailed 5, w2)"
    using w2 by (simp add: worldPaid_select)
  ultimately show ?thesis
    using updateMortuaryCharges_ok [OF f] by (simp add: catch_def)
qed


lemma run_fail5_deceased:
  "deceased (db (updateMortuaryCharges (envFail 5) worldPaid)) = [case0, caseUSD]"
proof -
  obtain w2 where w2: "processCase (envFail 5) (getKenyanDateTime (envFail 5) (clock (envFail 5) (reads worldPaid)))
          (worldPaid\<lparr>reads := reads worldPaid + 1, queries := queries worldPaid + 1\<rparr>) case0
          = Inl (QueryFailed 5, w2)"
    using worldPaid_fail5 by blast
  have f: "\<not> fails (envFail 5) (queries worldPaid)"
    by (simp add: envFail_values worldPaid_fields)
  have "deceased (db w2) = [case0, caseUSD]"
    using processCase_Inl_deceased [OF w2] by (simp add: worldPaid_fields)
  moreover have "forLoop (envFail 5) (getKenyanDateTime (envFail 5) (clock (envFail 5) (reads worldPaid)))
          (worldPaid\<lparr>reads := reads worldPaid + 1, queries := queries worldPaid + 1\<rparr>)
          (select_deceased (db worldPaid)) = Inl (QueryFailed 5, w2)"
    using w2 by (simp add: worldPaid_select)
  ultimately show ?thesis
    using updateMortuaryCharges_db [OF f] by simp
qed

text \<open>
  C2, as stated, fails: with two selected cases and the update of the first throwing (the
  sixth query of the run), the error is logged and the second case keeps its old row,
  with no total and its old time stamp, whereas a run without failure reconciles it to a
  total of 260.
\<close>

theorem later_case_not_reconciled:
  "select_deceased (db worldPaid) = [case0, caseUSD]
   \<and> errorLog (updateMortuaryCharges (envFail 5) worldPaid) = [QueryFailed 5]
   \<and> deceased (db (updateMortuaryCharges (envFail 5) worldPaid)) ! 1 = caseUSD
   \<and> d_last_charge_update caseUSD = Some (ValidDate 1000)
   \<and> d_total_mortuary_charge caseUSD = JNull
   \<and> deceased (db (updateMortuaryCharges envOK worldPaid)) ! 1 =
       caseUSD\<lparr>d_total_mortuary_charge := JNum (Fin 260),
               d_last_charge_update := Some (ValidDate 172801000), d_balance := JNum (Fin 260)\<rparr>"
  using worldPaid_select run_fail5_errorLog
  by (simp add: run_fail5_deceased worldPaid_deceased caseUSD_def)

section \<open>Conversion rates and malformed amounts\<close>

lemma coffinCharges_snoc:
  "coffinCharges cu (rows @ [c]) = js_add (coffinCharges cu rows) (js_mul (price cu c) (qty c))"
  by (simp add: coffinCharges_def)

lemma js_add_zero: "js_add x (Fin 0) = x" "js_add (Fin 0) x = x"
  by (cases x; simp)+

lemma parse_13000: "parseFloat_str ''13000.00'' = Fin 13000"
  by (simp add: parse_defs Let_def)

lemma parse_abc: "parseFloat_str ''abc'' = NaN"
  by (simp add: parse_defs Let_def)

lemma coffinKES_zero:
  "price ''USD'' (coffinKES (JNum (Fin 0))) = Fin 100"
  "coffinCharges ''USD'' [coffinKES (JNum (Fin 0))] = Fin 100"
  by (simp_all add: coffinCharges_def price_def qty_def coffinKES_def js_or_def parse_13000)

lemma coffinKES_negative:
  "price ''USD'' (coffinKES (JNum (Fin (- 130)))) = Fin (- 100)"
  "coffinCharges ''USD'' [coffinKES (JNum (Fin (- 130)))] = Fin (- 100)"
  by (simp_all add: coffinCharges_def price_def qty_def coffinKES_def js_or_def parse_13000)

lemma worldCoffin_run:
  "errorLog (updateMortuaryCharges envOK (worldCoffin r)) = []"
  "deceased (db (updateMortuaryCharges envOK (worldCoffin r))) =
     [caseUSD\<lparr>d_total_mortuary_charge :=
                 JNum (js_add (Fin 260) (coffinCharges ''USD'' [coffinKES r])),
              d_last_charge_update := Some (ValidDate 172801000),
              d_balance := JNum (js_add (Fin 260) (coffinCharges ''USD'' [coffinKES r]))\<rparr>]"
proof -
  have c: "select_coffins ''D2'' (db (worldCoffin r)) = [coffinKES r]"
    by (simp add: select_coffins_def worldCoffin_def coffinKES_def)
  note a = js_add_zero
  show "errorLog (updateMortuaryCharges envOK (worldCoffin r)) = []"
    by (simp add: run_defs envOK_def worldCoffin_def caseUSD_values)
  show "deceased (db (updateMortuaryCharges envOK (worldCoffin r))) =
     [caseUSD\<lparr>d_total_mortuary_charge :=
                 JNum (js_add (Fin 260) (coffinCharges ''USD'' [coffinKES r])),
              d_last_charge_update := Some (ValidDate 172801000),
              d_balance := JNum (js_add (Fin 260) (coffinCharges ''USD'' [coffinKES r]))\<rparr>]"
    using c
    by (simp add: run_defs envOK_def worldCoffin_def caseUSD_values caseUSD_cur empty_sums
          newTotal_def balance_def js_sub_def a coffinKES_def)
qed

text \<open>
  C8, as stated, fails: a KES coffin issued to a USD case with the exchange rate 0, or
  with the rate -130, is converted and charged (13000 / 130 = 100 added to the storage
  charge of 260 in the first run, 13000 / -130 = -100 in the second); no error is raised
  or logged and the coffin component is not skipped.
\<close>

theorem nonpositive_rate_not_rejected:
  "errorLog (updateMortuaryCharges envOK (worldCoffin (JNum (Fin 0)))) = []
   \<and> deceased (db (updateMortuaryCharges envOK (worldCoffin (JNum (Fin 0))))) =
       [caseUSD\<lparr>d_total_mortuary_charge := JNum (Fin 360),
                d_last_charge_update := Some (ValidDate 172801000),
                d_balance := JNum (Fin 360)\<rparr>]
   \<and> errorLog (updateMortuaryCharges envOK (worldCoffin (JNum (Fin (- 130))))) = []
   \<and> deceased (db (updateMortuaryCharges envOK (worldCoffin (JNum (Fin (- 130)))))) =
       [caseUSD\<lparr>d_total_mortuary_charge := JNum (Fin 160),
                d_last_charge_update := Some (ValidDate 172801000),
                d_balance := JNum (Fin 160)\<rparr>]
   \<and> totalStorageCharge caseUSD 172801000 = Fin 260"
  by (simp add: worldCoffin_run coffinKES_zero coffinKES_negative caseUSD_values)

lemma parse_100: "parseFloat_str ''100.00'' = Fin 100"
  by (simp add: parse_defs Let_def)

lemma coffinKES_fields:
  "coffin_currency (coffinKES r) = Some ''KES''" "exchange_rate (coffinKES r) = r"
  "parseFloat (exact_price (coffinKES r)) = Fin 13000"
  by (simp_all add: coffinKES_def parse_13000)

lemma coffinUSD_fields:
  "coffin_currency (coffinUSD r) = Some ''USD''" "exchange_rate (coffinUSD r) = r"
  "parseFloat (price_usd (coffinUSD r)) = Fin 100"
  by (simp_all add: coffinUSD_def parse_100)

subsection \<open>Amounts that are missing or not numbers\<close>

lemma missing_reads_zero: "\<not> truthy a \<Longrightarrow> parseFloat (js_or a (JNum (Fin 0))) = Fin 0"
  by (simp add: js_or_def)

lemma present_reads_itself: "truthy a \<Longrightarrow> parseFloat (js_or a (JNum (Fin 0))) = parseFloat a"
  by (simp add: js_or_def)

lemma js_add_NaN: "js_add x NaN = NaN" "js_add NaN x = NaN"
  by (cases x; simp)+

lemma sum_from_NaN:
  "foldl (\<lambda>acc amount. js_add acc (parseFloat (js_or amount (JNum (Fin 0))))) NaN ys = NaN"
  by (induction ys) (simp_all add: js_add_NaN)

lemma sum_skips_missing:
  assumes "\<not> truthy a"
  shows "foldl (\<lambda>acc amount. js_add acc (parseFloat (js_or amount (JNum (Fin 0))))) s (xs @ a # ys)
          = foldl (\<lambda>acc amount. js_add acc (parseFloat (js_or amount (JNum (Fin 0))))) s (xs @ ys)"
  by (simp add: missing_reads_zero [OF assms] js_add_zero)

lemma sum_hits_NaN:
  assumes "truthy a" "parseFloat a = NaN"
  shows "foldl (\<lambda>acc amount. js_add acc (parseFloat (js_or amount (JNum (Fin 0))))) s (xs @ a # ys)
          = NaN"
  by (simp add: present_reads_itself [OF assms(1)] assms(2) js_add_NaN sum_from_NaN)

lemma sums_100:
  "extraCharges [JStr ''100.00''] = Fin 100" "totalPayments [JStr ''100.00''] = Fin 100"
  by (simp_all add: extraCharges_def totalPayments_def js_or_def parse_100)

lemma case0_embalming_cost: "d_embalming_cost case0 = JNull"
  by (simp add: case0_def)

lemma extraCharges_abc: "extraCharges [JStr ''abc''] = NaN"
  by (simp add: extraCharges_def js_or_def parse_abc)

text \<open>
  C9, as stated, fails: with one extra charge whose amount is the text \<open>abc\<close>, the run
  completes without error and writes NaN as the total charge and as the balance of the
  case.
\<close>

theorem malformed_amount_gives_NaN:
  "errorLog (updateMortuaryCharges envOK worldBadAmount) = []
   \<and> deceased (db (updateMortuaryCharges envOK worldBadAmount)) =
       [case0\<lparr>d_total_mortuary_charge := JNum NaN,
              d_last_charge_update := Some (ValidDate 172801000),
              d_balance := JNum NaN\<rparr>]"
proof -
  have x: "select_extra_charges ''D1'' (db worldBadAmount) = [JStr ''abc'']"
    by (simp add: select_extra_charges_def worldBadAmount_def)
  have "errorLog (updateMortuaryCharges envOK worldBadAmount) = []"
    by (simp add: run_defs envOK_def worldBadAmount_def case0_values)
  moreover have "deceased (db (updateMortuaryCharges envOK worldBadAmount)) =
       [case0\<lparr>d_total_mortuary_charge := JNum NaN,
              d_last_charge_update := Some (ValidDate 172801000),
              d_balance := JNum NaN\<rparr>]"
    using x
    by (simp add: run_defs envOK_def worldBadAmount_def case0_values case0_cur empty_sums
          extraCharges_abc newTotal_def balance_def js_sub_def)
  ultimately show ?thesis by simp
qed

section \<open>What a run writes\<close>

lemma select_coffins_cong:
  "coffin_issue D' = coffin_issue D \<Longrightarrow> coffins D' = coffins D
     \<Longrightarrow> select_coffins i D' = select_coffins i D"
  by (simp add: select_coffins_def)

lemma select_extra_charges_cong:
  "extra_charges D' = extra_charges D \<Longrightarrow> select_extra_charges i D' = select_extra_charges i D"
  by (simp add: select_extra_charges_def)

lemma select_payments_cong:
  "payments D' = payments D \<Longrightarrow> select_payments i D' = select_payments i D"
  by (simp add: select_payments_def)

lemma forLoop_reads:
  "forLoop e now w ds = Inr w' \<Longrightarrow> reads w' = reads w + 2 * length ds"
proof (induction ds arbitrary: w)
  case Nil
  then show ?case by simp
next
  case (Cons d ds)
  from Cons.prems obtain w1 where w1: "processCase e now w d = Inr w1"
    and rest: "forLoop e now w1 ds = Inr w'"
    by (auto split: sum.splits)
  have "reads w1 = reads w + 2" using processCase_frame [of e now w d] w1 by simp
  then show ?case using Cons.IH [OF rest] by simp
qed

lemma update_deceased_rows:
  assumes "r \<in> set (deceased (update_deceased t n b i D))"
  shows "(d_deceased_id r = i \<and> d_total_mortuary_charge r = JNum t
            \<and> d_last_charge_update r = Some n \<and> d_balance r = JNum b)
         \<or> (d_deceased_id r \<noteq> i \<and> r \<in> set (deceased D))"
proof -
  define f where "f = (\<lambda>x::deceased_row. if d_deceased_id x = i
                   then x\<lparr>d_total_mortuary_charge := JNum t, d_last_charge_update := Some n,
                          d_balance := JNum b\<rparr>
                   else x)"
  have "deceased (update_deceased t n b i D) = map f (deceased D)"
    by (simp add: update_deceased_def f_def)
  with assms have "r \<in> f ` set (deceased D)" by simp
  then obtain x where x: "x \<in> set (deceased D)" and eq: "r = f x" by blast
  show ?thesis
  proof (cases "d_deceased_id x = i")
    case True
    then show ?thesis using eq by (simp add: f_def)
  next
    case False
    then show ?thesis using eq x by (simp add: f_def)
  qed
qed

lemma update_deceased_unreconciled:
  "map unreconciled (deceased (update_deceased t n b i D)) = map unreconciled (deceased D)"
  by (simp add: update_deceased_def unreconciled_def)

lemma processCase_unreconciled:
  "map unreconciled (deceased (db (world_of (processCase e now w d))))
     = map unreconciled (deceased (db w))"
proof (cases "processCase e now w d")
  case (Inl a)
  then show ?thesis using processCase_Inl_deceased [of e now w d "fst a" "snd a"]
    by (cases a) simp
next
  case (Inr w')
  then show ?thesis
    using processCase_Inr_deceased [OF Inr] by (simp add: update_deceased_unreconciled)
qed

lemma forLoop_unreconciled:
  "map unreconciled (deceased (db (world_of (forLoop e now w ds))))
     = map unreconciled (deceased (db w))"
proof (induction ds arbitrary: w)
  case Nil
  show ?case by simp
next
  case (Cons d ds)
  show ?case
  proof (cases "processCase e now w d")
    case (Inl a)
    then show ?thesis using processCase_unreconciled [of e now w d] by (cases a) simp
  next
    case (Inr w')
    then show ?thesis using processCase_unreconciled [of e now w d] Cons.IH [of w'] by simp
  qed
qed

lemma updateMortuaryCharges_world:
  "\<exists>ds. db (updateMortuaryCharges e w) =
          db (world_of (forLoop e (getKenyanDateTime e (clock e (reads w)))
                (w\<lparr>reads := reads w + 1, queries := queries w + 1\<rparr>) ds))"
proof (cases "fails e (queries w)")
  case True
  then have "db (updateMortuaryCharges e w) = db w"
    by (simp add: updateMortuaryCharges_def safeQuery_def Let_def catch_def)
  then have "db (updateMortuaryCharges e w) =
          db (world_of (forLoop e (getKenyanDateTime e (clock e (reads w)))
                (w\<lparr>reads := reads w + 1, queries := queries w + 1\<rparr>) []))"
    by simp
  then show ?thesis by blast
next
  case False
  then show ?thesis using updateMortuaryCharges_db by blast
qed

lemma updateMortuaryCharges_frame:
  "coffin_issue (db (updateMortuaryCharges e w)) = coffin_issue (db w)
   \<and> coffins (db (updateMortuaryCharges e w)) = coffins (db w)
   \<and> extra_charges (db (updateMortuaryCharges e w)) = extra_charges (db w)
   \<and> payments (db (updateMortuaryCharges e w)) = payments (db w)
   \<and> map unreconciled (deceased (db (updateMortuaryCharges e w)))
       = map unreconciled (deceased (db w))"
proof -
  obtain ds where ds: "db (updateMortuaryCharges e w) =
          db (world_of (forLoop e (getKenyanDateTime e (clock e (reads w)))
                (w\<lparr>reads := reads w + 1, queries := queries w + 1\<rparr>) ds))"
    using updateMortuaryCharges_world by blast
  show ?thesis
    unfolding ds
    using forLoop_frame [of e "getKenyanDateTime e (clock e (reads w))"
            "w\<lparr>reads := reads w + 1, queries := queries w + 1\<rparr>" ds]
          forLoop_unreconciled [of e "getKenyanDateTime e (clock e (reads w))"
            "w\<lparr>reads := reads w + 1, queries := queries w + 1\<rparr>" ds]
    by simp
qed


lemma processCase_case_rows:
  assumes ok: "processCase e now w d = Inr w'"
      and r: "r \<in> set (deceased (db w'))" "d_deceased_id r = d_deceased_id d"
  shows "d_total_mortuary_charge r =
           JNum (newTotal (totalStorageCharge d (clock e (reads w)))
                   (coffinCharges (cur d) (select_coffins (d_deceased_id d) (db w)))
                   (extraCharges (select_extra_charges (d_deceased_id d) (db w))) (embalming d))
         \<and> d_balance r =
           JNum (balance
                   (newTotal (totalStorageCharge d (clock e (reads w)))
                      (coffinCharges (cur d) (select_coffins (d_deceased_id d) (db w)))
                      (extraCharges (select_extra_charges (d_deceased_id d) (db w))) (embalming d))
                   (totalPayments (select_payments (d_deceased_id d) (db w))))
         \<and> d_last_charge_update r = Some now"
  using update_deceased_rows [OF r(1) [unfolded processCase_Inr_deceased [OF ok]]] r(2)
  by blast

lemma processCase_other_rev:
  assumes "r \<in> set (deceased (db (world_of (processCase e now w d))))"
      and "d_deceased_id r \<noteq> d_deceased_id d"
  shows "r \<in> set (deceased (db w))"
proof (cases "processCase e now w d")
  case (Inl a)
  then show ?thesis using assms processCase_Inl_deceased [of e now w d "fst a" "snd a"]
    by (cases a) simp
next
  case (Inr w')
  have "r \<in> set (deceased (db w'))" using assms(1) Inr by simp
  then show ?thesis
    using update_deceased_rows [of r] assms(2)
    unfolding processCase_Inr_deceased [OF Inr]
    by blast
qed

lemma forLoop_other_rev:
  "r \<in> set (deceased (db (world_of (forLoop e now w ds)))) \<Longrightarrow>
   d_deceased_id r \<notin> d_deceased_id ` set ds \<Longrightarrow> r \<in> set (deceased (db w))"
proof (induction ds arbitrary: w)
  case Nil
  then show ?case by simp
next
  case (Cons d ds)
  show ?case
  proof (cases "processCase e now w d")
    case (Inl a)
    then have "r \<in> set (deceased (db (world_of (processCase e now w d))))"
      using Cons.prems(1) by (cases a) simp
    then show ?thesis using processCase_other_rev Cons.prems(2) by simp
  next
    case (Inr w')
    then have "r \<in> set (deceased (db w'))"
      using Cons.IH [of w'] Cons.prems by simp
    then have "r \<in> set (deceased (db (world_of (processCase e now w d))))"
      using Inr by simp
    then show ?thesis using processCase_other_rev Cons.prems(2) by simp
  qed
qed

lemma run_case_rows:
  assumes nf: "\<forall>n. \<not> fails e n"
      and sel: "select_deceased (db w) = pre @ d # post"
      and last: "d_deceased_id d \<notin> d_deceased_id ` set post"
      and r: "r \<in> set (deceased (db (updateMortuaryCharges e w)))"
             "d_deceased_id r = d_deceased_id d"
  shows "d_total_mortuary_charge r =
           JNum (newTotal (totalStorageCharge d (clock e (reads w + 1 + 2 * length pre)))
                   (coffinCharges (cur d) (select_coffins (d_deceased_id d) (db w)))
                   (extraCharges (select_extra_charges (d_deceased_id d) (db w))) (embalming d))
         \<and> d_balance r =
           JNum (balance
                   (newTotal (totalStorageCharge d (clock e (reads w + 1 + 2 * length pre)))
                      (coffinCharges (cur d) (select_coffins (d_deceased_id d) (db w)))
                      (extraCharges (select_extra_charges (d_deceased_id d) (db w))) (embalming d))
                   (totalPayments (select_payments (d_deceased_id d) (db w))))
         \<and> d_last_charge_update r = Some (getKenyanDateTime e (clock e (reads w)))"
proof -
  let ?now = "getKenyanDateTime e (clock e (reads w))"
  let ?w0 = "w\<lparr>reads := reads w + 1, queries := queries w + 1\<rparr>"
  obtain w1 where w1: "forLoop e ?now ?w0 pre = Inr w1"
    using forLoop_no_failure [OF nf] by blast
  obtain w2 where w2: "processCase e ?now w1 d = Inr w2"
    using processCase_no_failure [OF nf] by blast
  obtain w3 where w3: "forLoop e ?now w2 post = Inr w3"
    using forLoop_no_failure [OF nf] by blast
  have loop: "forLoop e ?now ?w0 (pre @ d # post) = Inr w3"
    using w1 w2 w3 by (simp add: forLoop_append)
  have nf0: "\<not> fails e (queries w)" using nf by simp
  have run: "updateMortuaryCharges e w = w3"
    unfolding updateMortuaryCharges_ok [OF nf0] sel loop by simp
  have f1: "coffin_issue (db w1) = coffin_issue (db w)" "coffins (db w1) = coffins (db w)"
    "extra_charges (db w1) = extra_charges (db w)" "payments (db w1) = payments (db w)"
    using forLoop_frame [of e ?now ?w0 pre] w1 by simp_all
  have rd: "reads w1 = reads w + 1 + 2 * length pre"
    using forLoop_reads [OF w1] by simp
  have "r \<in> set (deceased (db (world_of (forLoop e ?now w2 post))))"
    using r(1) run w3 by simp
  then have r2: "r \<in> set (deceased (db w2))"
    using last r(2) forLoop_other_rev [of r e ?now w2 post] by simp
  note c = select_coffins_cong [OF f1(1) f1(2), of "d_deceased_id d"]
  note x = select_extra_charges_cong [OF f1(3), of "d_deceased_id d"]
  note p = select_payments_cong [OF f1(4), of "d_deceased_id d"]
  show ?thesis
    using processCase_case_rows [OF w2 r2 r(2)] unfolding rd c x p .
qed

lemma processCase_history_ok:
  assumes "\<forall>n. \<not> fails e n"
  shows "charge_history (db (world_of (processCase e now w d))) =
           charge_history (db w) @ auditEntries e (reads w) [d]"
  using assms processCase_history [of e now w d] by (simp add: description_def)

lemma forLoop_history:
  assumes nf: "\<forall>n. \<not> fails e n"
  shows "charge_history (db (world_of (forLoop e now w ds))) =
           charge_history (db w) @ auditEntries e (reads w) ds"
proof (induction ds arbitrary: w)
  case Nil
  show ?case by simp
next
  case (Cons d ds)
  obtain w1 where w1: "processCase e now w d = Inr w1"
    using processCase_no_failure [OF nf] by blast
  have h: "charge_history (db w1) = charge_history (db w) @ auditEntries e (reads w) [d]"
    using processCase_history_ok [OF nf, of now w d] w1 by simp
  have rd: "reads w1 = reads w + 2" using processCase_frame [of e now w d] w1 by simp
  show ?case using Cons.IH [of w1] w1 h rd by simp
qed

lemma run_history:
  assumes nf: "\<forall>n. \<not> fails e n"
  shows "charge_history (db (updateMortuaryCharges e w)) =
           charge_history (db w) @ auditEntries e (reads w + 1) (select_deceased (db w))"
proof -
  have "\<not> fails e (queries w)" using nf by simp
  then show ?thesis
    using updateMortuaryCharges_db [of e w]
          forLoop_history [OF nf, of "getKenyanDateTime e (clock e (reads w))"
             "w\<lparr>reads := reads w + 1, queries := queries w + 1\<rparr>" "select_deceased (db w)"]
    by simp
qed

lemma run_no_error:
  assumes nf: "\<forall>n. \<not> fails e n"
  shows "errorLog (updateMortuaryCharges e w) = errorLog w"
proof -
  let ?now = "getKenyanDateTime e (clock e (reads w))"
  let ?w0 = "w\<lparr>reads := reads w + 1, queries := queries w + 1\<rparr>"
  obtain w1 where w1: "forLoop e ?now ?w0 (select_deceased (db w)) = Inr w1"
    using forLoop_no_failure [OF nf] by blast
  have "errorLog w1 = errorLog ?w0"
    using forLoop_frame [of e ?now ?w0 "select_deceased (db w)"] w1 by simp
  moreover have "updateMortuaryCharges e w = w1"
    using updateMortuaryCharges_ok [of e w] nf w1 by simp
  ultimately show ?thesis by simp
qed

section \<open>The storage charge of a reconciled case\<close>

lemma envHalf_values: "clock envHalf n = 129601000" "fails envHalf n = False"
  "getKenyanDateTime envHalf = ValidDate"
  by (simp_all add: envHalf_def)

lemma worldUSD_values:
  "select_deceased (db worldUSD) = [] @ caseUSD # []"
  "select_coffins i (db worldUSD) = []" "select_extra_charges i (db worldUSD) = []"
  "select_payments i (db worldUSD) = []" "reads worldUSD = 0" "queries worldUSD = 0"
  "deceased (db worldUSD) = [caseUSD]"
  by (simp_all add: worldUSD_def select_deceased_def select_coffins_def
        select_extra_charges_def select_payments_def caseUSD_def)

lemma caseUSD_embalming: "d_embalming_cost caseUSD = JNull" "embalming caseUSD = Fin 0"
  by (simp_all add: caseUSD_def embalming_def js_or_def)

lemma run_ids:
  "map d_deceased_id (deceased (db (updateMortuaryCharges e w))) = map d_deceased_id (deceased (db w))"
proof -
  have "map d_deceased_id (map unreconciled xs) = map d_deceased_id xs" for xs
    by (simp add: unreconciled_def)
  then show ?thesis
    using updateMortuaryCharges_frame [of e w] by metis
qed

text \<open>
  C3. The storage charge of a case is the fractional day count since its admission date
  (not truncated) times its daily rate. The daily rate is 5000 for the category premium
  and 3000 for any other category, unless the currency of the case is USD: then it is
  the number read from the stored \<open>usd_charge_rate\<close>, and 130 when none is stored
  (NULL, or a value JavaScript counts as absent: an empty string, 0). A run of
  \<^verbatim>\<open>updateMortuaryCharges\<close> in which no query throws writes, into every row of a
  selected case (the last selected row of its id), that storage charge plus the coffin
  charges, the extra charges and the embalming cost, the day count being taken at the
  first clock reading of the iteration of the case. For a USD case with the daily rate
  130, read one and a half days after admission, with no coffin, extra charge or
  embalming cost, the total charge written is 195.
\<close>

theorem storage_charge_rate:
  "totalStorageCharge d t = js_mul (getFractionalDays (admissionDate d) (ValidDate t)) (baseRate d)
   \<and> (admissionDate d = ValidDate a \<and> a < t \<longrightarrow> totalDays d t = Fin (of_int (t - a) / 86400000))
   \<and> (cur d \<noteq> ''USD'' \<and> d_rate_category d = Some ''premium'' \<longrightarrow> baseRate d = Fin 5000)
   \<and> (cur d \<noteq> ''USD'' \<and> d_rate_category d \<noteq> Some ''premium'' \<longrightarrow> baseRate d = Fin 3000)
   \<and> (cur d = ''USD'' \<and> truthy (d_usd_charge_rate d) \<longrightarrow> baseRate d = parseFloat (d_usd_charge_rate d))
   \<and> (cur d = ''USD'' \<and> \<not> truthy (d_usd_charge_rate d) \<longrightarrow> baseRate d = Fin 130)
   \<and> (cur d = ''USD'' \<and> d_usd_charge_rate d = JNull \<longrightarrow> baseRate d = Fin 130)
   \<and> ((\<forall>n. \<not> fails e n) \<and> select_deceased (db w) = pre @ d # post
        \<and> d_deceased_id d \<notin> d_deceased_id ` set post
        \<longrightarrow> (\<forall>r \<in> set (deceased (db (updateMortuaryCharges e w))).
               d_deceased_id r = d_deceased_id d \<longrightarrow>
               d_total_mortuary_charge r =
                 JNum (js_add (js_add (js_add
                         (js_mul (getFractionalDays (admissionDate d)
                                    (ValidDate (clock e (reads w + 1 + 2 * length pre))))
                                 (baseRate d))
                         (coffinCharges (cur d) (select_coffins (d_deceased_id d) (db w))))
                         (extraCharges (select_extra_charges (d_deceased_id d) (db w))))
                         (embalming d))))
   \<and> ((\<forall>n. \<not> fails e n) \<and> select_deceased (db w) = pre @ d # post
        \<and> d_deceased_id d \<notin> d_deceased_id ` set post
        \<and> cur d = ''USD'' \<and> baseRate d = Fin 130 \<and> admissionDate d = ValidDate a
        \<and> clock e (reads w + 1 + 2 * length pre) = a + 129600000
        \<and> select_coffins (d_deceased_id d) (db w) = []
        \<and> select_extra_charges (d_deceased_id d) (db w) = []
        \<and> \<not> truthy (d_embalming_cost d)
        \<longrightarrow> (\<forall>r \<in> set (deceased (db (updateMortuaryCharges e w))).
               d_deceased_id r = d_deceased_id d \<longrightarrow> d_total_mortuary_charge r = JNum (Fin 195)))"
proof -
  have link: "d_total_mortuary_charge r =
                 JNum (js_add (js_add (js_add
                         (js_mul (getFractionalDays (admissionDate d)
                                    (ValidDate (clock e (reads w + 1 + 2 * length pre))))
                                 (baseRate d))
                         (coffinCharges (cur d) (select_coffins (d_deceased_id d) (db w))))
                         (extraCharges (select_extra_charges (d_deceased_id d) (db w))))
                         (embalming d))"
    if h: "(\<forall>n. \<not> fails e n) \<and> select_deceased (db w) = pre @ d # post
        \<and> d_deceased_id d \<notin> d_deceased_id ` set post"
      and r: "r \<in> set (deceased (db (updateMortuaryCharges e w)))" "d_deceased_id r = d_deceased_id d"
    for r
  proof -
    have nf: "\<forall>n. \<not> fails e n" and sel: "select_deceased (db w) = pre @ d # post"
      and last: "d_deceased_id d \<notin> d_deceased_id ` set post"
      using h by blast+
    show ?thesis
      using run_case_rows [OF nf sel last r]
      by (simp add: newTotal_def totalStorageCharge_def totalDays_def)
  qed
  have usd: "d_total_mortuary_charge r = JNum (Fin 195)"
    if h: "(\<forall>n. \<not> fails e n) \<and> select_deceased (db w) = pre @ d # post
        \<and> d_deceased_id d \<notin> d_deceased_id ` set post
        \<and> cur d = ''USD'' \<and> baseRate d = Fin 130 \<and> admissionDate d = ValidDate a
        \<and> clock e (reads w + 1 + 2 * length pre) = a + 129600000
        \<and> select_coffins (d_deceased_id d) (db w) = []
        \<and> select_extra_charges (d_deceased_id d) (db w) = []
        \<and> \<not> truthy (d_embalming_cost d)"
      and r: "r \<in> set (deceased (db (updateMortuaryCharges e w)))" "d_deceased_id r = d_deceased_id d"
    for r
  proof -
    have h3: "(\<forall>n. \<not> fails e n) \<and> select_deceased (db w) = pre @ d # post
        \<and> d_deceased_id d \<notin> d_deceased_id ` set post"
      using h by blast
    have emb: "embalming d = Fin 0" using h by (simp add: embalming_def js_or_def)
    show ?thesis
      using link [OF h3 r] h emb
      by (simp add: getFractionalDays_cases empty_sums)
  qed
  have rates: "totalStorageCharge d t = js_mul (getFractionalDays (admissionDate d) (ValidDate t)) (baseRate d)
   \<and> (admissionDate d = ValidDate a \<and> a < t \<longrightarrow> totalDays d t = Fin (of_int (t - a) / 86400000))
   \<and> (cur d \<noteq> ''USD'' \<and> d_rate_category d = Some ''premium'' \<longrightarrow> baseRate d = Fin 5000)
   \<and> (cur d \<noteq> ''USD'' \<and> d_rate_category d \<noteq> Some ''premium'' \<longrightarrow> baseRate d = Fin 3000)
   \<and> (cur d = ''USD'' \<and> truthy (d_usd_charge_rate d) \<longrightarrow> baseRate d = parseFloat (d_usd_charge_rate d))
   \<and> (cur d = ''USD'' \<and> \<not> truthy (d_usd_charge_rate d) \<longrightarrow> baseRate d = Fin 130)
   \<and> (cur d = ''USD'' \<and> d_usd_charge_rate d = JNull \<longrightarrow> baseRate d = Fin 130)"
    by (auto simp: totalStorageCharge_def totalDays_def baseRate_def js_or_def
          getFractionalDays_cases)
  show ?thesis using rates link usd by blast
qed


lemma worldUSD_row:
  "deceased (db (updateMortuaryCharges e worldUSD)) ! 0
     \<in> set (deceased (db (updateMortuaryCharges e worldUSD)))"
  "d_deceased_id (deceased (db (updateMortuaryCharges e worldUSD)) ! 0) = ''D2''"
proof -
  have m: "map d_deceased_id (deceased (db (updateMortuaryCharges e worldUSD))) = [''D2'']"
    using run_ids [of e worldUSD] by (simp add: worldUSD_values caseUSD_values)
  then have l: "length (deceased (db (updateMortuaryCharges e worldUSD))) = 1"
    by (metis length_map length_Cons list.size(3) One_nat_def)
  show "deceased (db (updateMortuaryCharges e worldUSD)) ! 0
     \<in> set (deceased (db (updateMortuaryCharges e worldUSD)))"
    using l by simp
  show "d_deceased_id (deceased (db (updateMortuaryCharges e worldUSD)) ! 0) = ''D2''"
    using m l by (metis nth_map nth_Cons_0 zero_less_one)
qed

theorem storage_charge_rate_witness:
  "(\<forall>n. \<not> fails envHalf n)
   \<and> select_deceased (db worldUSD) = [] @ caseUSD # []
   \<and> cur caseUSD = ''USD'' \<and> d_usd_charge_rate caseUSD = JNull
   \<and> \<not> truthy (d_usd_charge_rate caseUSD)
   \<and> baseRate caseUSD = Fin 130 \<and> admissionDate caseUSD = ValidDate 1000
   \<and> clock envHalf (reads worldUSD + 1 + 2 * length ([] :: deceased_row list)) = 1000 + 129600000
   \<and> select_coffins (d_deceased_id caseUSD) (db worldUSD) = []
   \<and> select_extra_charges (d_deceased_id caseUSD) (db worldUSD) = []
   \<and> \<not> truthy (d_embalming_cost caseUSD)
   \<and> (1000::int) < 129601000
   \<and> totalDays caseUSD 129601000 = Fin (3 / 2)
   \<and> totalStorageCharge caseUSD 129601000 = Fin 195
   \<and> d_deceased_id (deceased (db (updateMortuaryCharges envHalf worldUSD)) ! 0) = ''D2''
   \<and> d_total_mortuary_charge (deceased (db (updateMortuaryCharges envHalf worldUSD)) ! 0)
       = JNum (Fin 195)
   \<and> (cur caseUSD150 = ''USD'' \<and> truthy (d_usd_charge_rate caseUSD150)
      \<and> baseRate caseUSD150 = Fin 150)
   \<and> (cur casePremium \<noteq> ''USD'' \<and> d_rate_category casePremium = Some ''premium''
      \<and> baseRate casePremium = Fin 5000)
   \<and> (cur case0 \<noteq> ''USD'' \<and> d_rate_category case0 \<noteq> Some ''premium''
      \<and> baseRate case0 = Fin 3000)"
proof -
  note u = storage_charge_rate [of caseUSD 129601000 1000 envHalf worldUSD "[]" "[]"]
  have nf: "\<forall>n. \<not> fails envHalf n" by (simp add: envHalf_values)
  have sel: "select_deceased (db worldUSD) = [] @ caseUSD # []" by (rule worldUSD_values)
  have rate: "baseRate caseUSD = Fin 130"
    using u by (simp add: caseUSD_cur caseUSD_usd_charge_rate)
  have clk: "clock envHalf (reads worldUSD + 1 + 2 * length ([] :: deceased_row list))
               = 1000 + 129600000"
    by (simp add: envHalf_values)
  have days: "totalDays caseUSD 129601000 = Fin (3 / 2)"
    using u by (simp add: caseUSD_admissionDate)
  have st: "totalStorageCharge caseUSD 129601000 = Fin 195"
    using u by (simp add: caseUSD_admissionDate rate getFractionalDays_cases)
  note usd = u [THEN conjunct2, THEN conjunct2, THEN conjunct2, THEN conjunct2,
                 THEN conjunct2, THEN conjunct2, THEN conjunct2, THEN conjunct2]
  have all: "\<forall>r \<in> set (deceased (db (updateMortuaryCharges envHalf worldUSD))).
               d_deceased_id r = d_deceased_id caseUSD \<longrightarrow> d_total_mortuary_charge r = JNum (Fin 195)"
    using usd nf sel rate clk
    by (simp add: caseUSD_cur caseUSD_admissionDate worldUSD_values caseUSD_embalming)
  have row: "d_total_mortuary_charge (deceased (db (updateMortuaryCharges envHalf worldUSD)) ! 0)
       = JNum (Fin 195)"
    using all worldUSD_row [of envHalf] by (simp add: caseUSD_values)
  have r150: "baseRate caseUSD150 = Fin 150"
    using storage_charge_rate [of caseUSD150]
    by (simp only: caseUSD150_truthy caseUSD150_parse caseUSD150_cur simp_thms)
  have rp: "baseRate casePremium = Fin 5000"
    using storage_charge_rate [of casePremium]
    by (simp add: casePremium_cur casePremium_rate_category)
  have r0: "baseRate case0 = Fin 3000"
    using storage_charge_rate [of case0] by (simp add: case0_cur case0_rate_category)
  show ?thesis
    using nf sel rate clk days st row r150 rp r0 worldUSD_row(2) [of envHalf]
    by (simp add: caseUSD_cur caseUSD_usd_charge_rate caseUSD_admissionDate worldUSD_values
          caseUSD_embalming caseUSD150_cur caseUSD150_truthy casePremium_cur
          casePremium_rate_category case0_cur case0_rate_category)
qed


section \<open>The audit entries of a pass\<close>

lemma auditEntries_append:
  "auditEntries e n (xs @ ys) = auditEntries e n xs @ auditEntries e (n + 2 * length xs) ys"
  by (induction xs arbitrary: n) simp_all

text \<open>
  C6. A run of \<^verbatim>\<open>updateMortuaryCharges\<close> in which no query throws appends to the
  charge history exactly the entries the specification expects: for each selected case in
  turn, one entry of type \<open>daily_storage\<close> if the incremental storage charge of the
  case exceeds 0.01, and no entry otherwise. The entry carries the incremental charge, the
  currency of the case and a description with the day count printed to four decimals. A
  case with an incremental charge of 0.001 adds nothing to the history, a case with one
  of 50 adds exactly one entry. The last conjunct is the same fact for one iteration
  taken alone, where only the insert must not throw. (The comparison with 0.01 and the
  four decimals are those of the exact values; a charge within rounding distance of 0.01
  may fall on the other side of the threshold in binary64.)
\<close>

theorem audit_threshold:
  "((\<forall>n. \<not> fails e n) \<longrightarrow>
       charge_history (db (updateMortuaryCharges e w)) =
         charge_history (db w) @ auditEntries e (reads w + 1) (select_deceased (db w)))
   \<and> ((\<forall>n. \<not> fails e n) \<and> select_deceased (db w) = pre @ d # post \<longrightarrow>
       charge_history (db (updateMortuaryCharges e w)) =
         charge_history (db w) @ auditEntries e (reads w + 1) pre
         @ (if js_gt (incrementalCharge d (clock e (reads w + 2 + 2 * length pre))) (Fin (1 / 100))
            then [\<lparr>ch_deceased_id = d_deceased_id d, ch_charge_type = ''daily_storage'',
                   ch_amount = incrementalCharge d (clock e (reads w + 2 + 2 * length pre)),
                   ch_currency = cur d,
                   ch_description = ''Daily mortuary charge (''
                      @ toFixed 4 (incrementalDays d (clock e (reads w + 2 + 2 * length pre)))
                      @ '' days)''\<rparr>]
            else [])
         @ auditEntries e (reads w + 3 + 2 * length pre) post)
   \<and> ((\<forall>n. \<not> fails e n) \<and> select_deceased (db w) = pre @ d # post
        \<and> incrementalCharge d (clock e (reads w + 2 + 2 * length pre)) = Fin (1 / 1000) \<longrightarrow>
       charge_history (db (updateMortuaryCharges e w)) =
         charge_history (db w) @ auditEntries e (reads w + 1) pre
         @ auditEntries e (reads w + 3 + 2 * length pre) post)
   \<and> ((\<forall>n. \<not> fails e n) \<and> select_deceased (db w) = pre @ d # post
        \<and> incrementalCharge d (clock e (reads w + 2 + 2 * length pre)) = Fin 50 \<longrightarrow>
       charge_history (db (updateMortuaryCharges e w)) =
         charge_history (db w) @ auditEntries e (reads w + 1) pre
         @ [\<lparr>ch_deceased_id = d_deceased_id d, ch_charge_type = ''daily_storage'',
             ch_amount = Fin 50, ch_currency = cur d,
             ch_description = ''Daily mortuary charge (''
                @ toFixed 4 (incrementalDays d (clock e (reads w + 2 + 2 * length pre)))
                @ '' days)''\<rparr>]
         @ auditEntries e (reads w + 3 + 2 * length pre) post)
   \<and> ((js_gt (incrementalCharge d (clock e (reads w + 1))) (Fin (1 / 100))
          \<longrightarrow> \<not> fails e (queries w)) \<longrightarrow>
       charge_history (db (world_of (processCase e now w d))) =
         charge_history (db w) @ auditEntries e (reads w) [d])"
proof -
  have run: "charge_history (db (updateMortuaryCharges e w)) =
         charge_history (db w) @ auditEntries e (reads w + 1) (select_deceased (db w))"
    if "\<forall>n. \<not> fails e n"
    using that by (rule run_history)
  have split: "charge_history (db (updateMortuaryCharges e w)) =
         charge_history (db w) @ auditEntries e (reads w + 1) pre
         @ (if js_gt (incrementalCharge d (clock e (reads w + 2 + 2 * length pre))) (Fin (1 / 100))
            then [\<lparr>ch_deceased_id = d_deceased_id d, ch_charge_type = ''daily_storage'',
                   ch_amount = incrementalCharge d (clock e (reads w + 2 + 2 * length pre)),
                   ch_currency = cur d,
                   ch_description = ''Daily mortuary charge (''
                      @ toFixed 4 (incrementalDays d (clock e (reads w + 2 + 2 * length pre)))
                      @ '' days)''\<rparr>]
            else [])
         @ auditEntries e (reads w + 3 + 2 * length pre) post"
    if h: "(\<forall>n. \<not> fails e n) \<and> select_deceased (db w) = pre @ d # post"
  proof -
    have a: "reads w + 1 + 2 * length pre + 1 = reads w + 2 + 2 * length pre"
            "reads w + 1 + 2 * length pre + 2 = reads w + 3 + 2 * length pre"
      by simp_all
    show ?thesis
      using run h by (simp add: auditEntries_append eval_nat_numeral)
  qed
  have tiny: "charge_history (db (updateMortuaryCharges e w)) =
         charge_history (db w) @ auditEntries e (reads w + 1) pre
         @ auditEntries e (reads w + 3 + 2 * length pre) post"
    if h: "(\<forall>n. \<not> fails e n) \<and> select_deceased (db w) = pre @ d # post
        \<and> incrementalCharge d (clock e (reads w + 2 + 2 * length pre)) = Fin (1 / 1000)"
  proof -
    have "(\<forall>n. \<not> fails e n) \<and> select_deceased (db w) = pre @ d # post" using h by blast
    from split [OF this] show ?thesis using h by simp
  qed
  have fifty: "charge_history (db (updateMortuaryCharges e w)) =
         charge_history (db w) @ auditEntries e (reads w + 1) pre
         @ [\<lparr>ch_deceased_id = d_deceased_id d, ch_charge_type = ''daily_storage'',
             ch_amount = Fin 50, ch_currency = cur d,
             ch_description = ''Daily mortuary charge (''
                @ toFixed 4 (incrementalDays d (clock e (reads w + 2 + 2 * length pre)))
                @ '' days)''\<rparr>]
         @ auditEntries e (reads w + 3 + 2 * length pre) post"
    if h: "(\<forall>n. \<not> fails e n) \<and> select_deceased (db w) = pre @ d # post
        \<and> incrementalCharge d (clock e (reads w + 2 + 2 * length pre)) = Fin 50"
  proof -
    have "(\<forall>n. \<not> fails e n) \<and> select_deceased (db w) = pre @ d # post" using h by blast
    from split [OF this] show ?thesis using h by simp
  qed
  have one: "charge_history (db (world_of (processCase e now w d))) =
         charge_history (db w) @ auditEntries e (reads w) [d]"
    if "js_gt (incrementalCharge d (clock e (reads w + 1))) (Fin (1 / 100))
          \<longrightarrow> \<not> fails e (queries w)"
    using that processCase_history [of e now w d] by (auto simp: description_def)
  show ?thesis using run split tiny fifty one by blast
qed

lemma worldAudit_values:
  "select_deceased (db worldAudit) = [] @ caseRecent # [caseTiny]"
  "select_deceased (db worldAudit) = [caseRecent] @ caseTiny # []"
  "charge_history (db worldAudit) = []" "reads worldAudit = 0"
  by (simp_all add: worldAudit_def select_deceased_def caseRecent_def caseTiny_def
        case0_def caseUSD_def)

theorem audit_threshold_witness:
  "(\<forall>n. \<not> fails envOK n)
   \<and> select_deceased (db worldAudit) = [] @ caseRecent # [caseTiny]
   \<and> select_deceased (db worldAudit) = [caseRecent] @ caseTiny # []
   \<and> incrementalCharge caseRecent (clock envOK (reads worldAudit + 2 + 2 * length ([] :: deceased_row list)))
       = Fin 50
   \<and> incrementalCharge caseTiny (clock envOK (reads worldAudit + 2 + 2 * length [caseRecent]))
       = Fin (1 / 1000)
   \<and> charge_history (db (updateMortuaryCharges envOK worldAudit)) =
       [\<lparr>ch_deceased_id = ''D1'', ch_charge_type = ''daily_storage'', ch_amount = Fin 50,
         ch_currency = ''KES'', ch_description = ''Daily mortuary charge (0.0167 days)''\<rparr>]
   \<and> \<not> fails envOK (queries worldPaid)
   \<and> charge_history (db (world_of (processCase envOK (ValidDate 172801000) worldPaid caseRecent))) =
       [\<lparr>ch_deceased_id = ''D1'', ch_charge_type = ''daily_storage'', ch_amount = Fin 50,
         ch_currency = ''KES'', ch_description = ''Daily mortuary charge (0.0167 days)''\<rparr>]"
proof -
  have nf: "\<forall>n. \<not> fails envOK n" by (simp add: envOK_values)
  have a: "incrementalCharge caseRecent (clock envOK (reads worldAudit + 2 + 2 * length ([] :: deceased_row list)))
       = Fin 50"
    by (simp add: envOK_values caseRecent_values)
  have b: "incrementalCharge caseTiny (clock envOK (reads worldAudit + 2 + 2 * length [caseRecent]))
       = Fin (1 / 1000)"
    by (simp add: envOK_values caseTiny_values)
  note t1 = audit_threshold [of envOK worldAudit "[caseRecent]" caseTiny "[]",
      THEN conjunct2, THEN conjunct2, THEN conjunct1]
  note t2 = audit_threshold [of envOK worldAudit "[]" caseRecent "[caseTiny]",
      THEN conjunct2, THEN conjunct2, THEN conjunct2, THEN conjunct1]
  note t3 = audit_threshold [of envOK worldPaid "[]" caseRecent "[]" "ValidDate 172801000",
      THEN conjunct2, THEN conjunct2, THEN conjunct2, THEN conjunct2]
  have h1: "charge_history (db (updateMortuaryCharges envOK worldAudit)) =
         charge_history (db worldAudit) @ auditEntries envOK (reads worldAudit + 1) [caseRecent]
         @ auditEntries envOK (reads worldAudit + 3 + 2 * length [caseRecent]) []"
    using t1 nf worldAudit_values(2) b by blast
  have c: "charge_history (db (updateMortuaryCharges envOK worldAudit)) =
       [\<lparr>ch_deceased_id = ''D1'', ch_charge_type = ''daily_storage'', ch_amount = Fin 50,
         ch_currency = ''KES'', ch_description = ''Daily mortuary charge (0.0167 days)''\<rparr>]"
    using h1
    by (simp add: worldAudit_values envOK_values caseRecent_values toFixed_sixtieth)
  have c2: "charge_history (db (updateMortuaryCharges envOK worldAudit)) =
         charge_history (db worldAudit) @ auditEntries envOK (reads worldAudit + 1) []
         @ [\<lparr>ch_deceased_id = d_deceased_id caseRecent, ch_charge_type = ''daily_storage'',
             ch_amount = Fin 50, ch_currency = cur caseRecent,
             ch_description = ''Daily mortuary charge (''
                @ toFixed 4 (incrementalDays caseRecent
                    (clock envOK (reads worldAudit + 2 + 2 * length ([] :: deceased_row list))))
                @ '' days)''\<rparr>]
         @ auditEntries envOK (reads worldAudit + 3 + 2 * length ([] :: deceased_row list)) [caseTiny]"
    using t2 nf worldAudit_values(1) a by blast
  have f: "\<not> fails envOK (queries worldPaid)" by (simp add: envOK_values)
  have d: "charge_history (db (world_of (processCase envOK (ValidDate 172801000) worldPaid caseRecent))) =
       [\<lparr>ch_deceased_id = ''D1'', ch_charge_type = ''daily_storage'', ch_amount = Fin 50,
         ch_currency = ''KES'', ch_description = ''Daily mortuary charge (0.0167 days)''\<rparr>]"
    using t3 f
    by (simp add: envOK_values caseRecent_values worldPaid_values toFixed_sixtieth)
  show ?thesis using nf worldAudit_values(1,2) a b c f d by blast
qed

section \<open>Rates and amounts in a run\<close>

lemma first_row:
  assumes "deceased (db w) = d # ds"
  shows "deceased (db (updateMortuaryCharges e w)) ! 0
           \<in> set (deceased (db (updateMortuaryCharges e w)))"
    and "d_deceased_id (deceased (db (updateMortuaryCharges e w)) ! 0) = d_deceased_id d"
proof -
  have m: "map d_deceased_id (deceased (db (updateMortuaryCharges e w)))
             = d_deceased_id d # map d_deceased_id ds"
    using run_ids [of e w] assms by simp
  then have l: "0 < length (deceased (db (updateMortuaryCharges e w)))"
    by (metis length_map length_greater_0_conv list.distinct(1))
  show "deceased (db (updateMortuaryCharges e w)) ! 0
           \<in> set (deceased (db (updateMortuaryCharges e w)))"
    using l by simp
  show "d_deceased_id (deceased (db (updateMortuaryCharges e w)) ! 0) = d_deceased_id d"
    using m l by (metis nth_map nth_Cons_0)
qed

lemma price_cases:
  "coffin_currency c = Some ''KES'' \<Longrightarrow> cu = ''KES'' \<Longrightarrow> price cu c = parseFloat (exact_price c)"
  "coffin_currency c = Some ''KES'' \<Longrightarrow> cu \<noteq> ''KES'' \<Longrightarrow>
     price cu c = js_div (parseFloat (exact_price c))
                    (if truthy (exchange_rate c) then to_number (exchange_rate c) else Fin 130)"
  "coffin_currency c = Some ''USD'' \<Longrightarrow> cu = ''USD'' \<Longrightarrow> price cu c = parseFloat (price_usd c)"
  "coffin_currency c = Some ''USD'' \<Longrightarrow> cu \<noteq> ''USD'' \<Longrightarrow>
     price cu c = js_mul (parseFloat (price_usd c))
                    (if truthy (exchange_rate c) then to_number (exchange_rate c) else Fin 130)"
  "coffin_currency c \<noteq> Some ''KES'' \<Longrightarrow> coffin_currency c \<noteq> Some ''USD'' \<Longrightarrow> price cu c = Fin 0"
  by (simp_all add: price_def js_or_def)

lemma text_zero: "string_to_number ''0.00'' = Fin 0"
  by (simp add: parse_defs Let_def)

text \<open>
  C8, as the code has it. The conversion never rejects a rate. The rate used is
  \<^verbatim>\<open>c.exchange_rate || 130\<close> converted to a Number: a KES price billed in another
  currency is divided by it, a USD price billed in another currency is multiplied by it,
  and a price already in the currency of the case is taken as it is. A rate that is
  NULL, the empty text or the Number 0 is replaced by 130. Every other stored value is
  used as it is: a non-zero Number, negative ones included, and any non-empty text,
  which is converted to a Number; the DECIMAL text \<open>0.00\<close> is such a text and converts
  to 0, so that a KES price is then divided by zero. The converted price times the
  quantity is always added to the coffin charges, which enter the total written by a run;
  a run in which no query throws logs no error, whatever the rates.
\<close>

theorem conversion_rate_default:
  "(coffin_currency c = Some ''KES'' \<and> cu \<noteq> ''KES''
      \<longrightarrow> price cu c = js_div (parseFloat (exact_price c))
                         (if truthy (exchange_rate c) then to_number (exchange_rate c) else Fin 130))
   \<and> (coffin_currency c = Some ''USD'' \<and> cu \<noteq> ''USD''
      \<longrightarrow> price cu c = js_mul (parseFloat (price_usd c))
                         (if truthy (exchange_rate c) then to_number (exchange_rate c) else Fin 130))
   \<and> (coffin_currency c = Some ''KES'' \<and> cu = ''KES'' \<longrightarrow> price cu c = parseFloat (exact_price c))
   \<and> (coffin_currency c = Some ''USD'' \<and> cu = ''USD'' \<longrightarrow> price cu c = parseFloat (price_usd c))
   \<and> \<not> truthy JNull \<and> \<not> truthy (JStr []) \<and> \<not> truthy (JNum (Fin 0))
   \<and> (x \<noteq> 0 \<longrightarrow> truthy (JNum (Fin x)) \<and> to_number (JNum (Fin x)) = Fin x)
   \<and> (s \<noteq> [] \<longrightarrow> truthy (JStr s) \<and> to_number (JStr s) = string_to_number s)
   \<and> truthy (JStr ''0.00'') \<and> to_number (JStr ''0.00'') = Fin 0
   \<and> coffinCharges cu (rows @ [c]) = js_add (coffinCharges cu rows) (js_mul (price cu c) (qty c))
   \<and> ((\<forall>n. \<not> fails e n) \<longrightarrow> errorLog (updateMortuaryCharges e w) = errorLog w)
   \<and> ((\<forall>n. \<not> fails e n) \<and> select_deceased (db w) = pre @ d # post
        \<and> d_deceased_id d \<notin> d_deceased_id ` set post
        \<longrightarrow> (\<forall>r \<in> set (deceased (db (updateMortuaryCharges e w))).
               d_deceased_id r = d_deceased_id d \<longrightarrow>
               d_total_mortuary_charge r =
                 JNum (newTotal (totalStorageCharge d (clock e (reads w + 1 + 2 * length pre)))
                         (coffinCharges (cur d) (select_coffins (d_deceased_id d) (db w)))
                         (extraCharges (select_extra_charges (d_deceased_id d) (db w)))
                         (embalming d))))"
proof -
  have rows: "d_total_mortuary_charge r =
                 JNum (newTotal (totalStorageCharge d (clock e (reads w + 1 + 2 * length pre)))
                         (coffinCharges (cur d) (select_coffins (d_deceased_id d) (db w)))
                         (extraCharges (select_extra_charges (d_deceased_id d) (db w)))
                         (embalming d))"
    if h: "(\<forall>n. \<not> fails e n) \<and> select_deceased (db w) = pre @ d # post
        \<and> d_deceased_id d \<notin> d_deceased_id ` set post"
      and r: "r \<in> set (deceased (db (updateMortuaryCharges e w)))" "d_deceased_id r = d_deceased_id d"
    for r
  proof -
    have nf: "\<forall>n. \<not> fails e n" and sel: "select_deceased (db w) = pre @ d # post"
      and last: "d_deceased_id d \<notin> d_deceased_id ` set post"
      using h by blast+
    show ?thesis using run_case_rows [OF nf sel last r] by blast
  qed
  have noerr: "errorLog (updateMortuaryCharges e w) = errorLog w" if "\<forall>n. \<not> fails e n"
    using that by (rule run_no_error)
  have pure: "(coffin_currency c = Some ''KES'' \<and> cu \<noteq> ''KES''
      \<longrightarrow> price cu c = js_div (parseFloat (exact_price c))
                         (if truthy (exchange_rate c) then to_number (exchange_rate c) else Fin 130))
   \<and> (coffin_currency c = Some ''USD'' \<and> cu \<noteq> ''USD''
      \<longrightarrow> price cu c = js_mul (parseFloat (price_usd c))
                         (if truthy (exchange_rate c) then to_number (exchange_rate c) else Fin 130))
   \<and> (coffin_currency c = Some ''KES'' \<and> cu = ''KES'' \<longrightarrow> price cu c = parseFloat (exact_price c))
   \<and> (coffin_currency c = Some ''USD'' \<and> cu = ''USD'' \<longrightarrow> price cu c = parseFloat (price_usd c))
   \<and> \<not> truthy JNull \<and> \<not> truthy (JStr []) \<and> \<not> truthy (JNum (Fin 0))
   \<and> (x \<noteq> 0 \<longrightarrow> truthy (JNum (Fin x)) \<and> to_number (JNum (Fin x)) = Fin x)
   \<and> (s \<noteq> [] \<longrightarrow> truthy (JStr s) \<and> to_number (JStr s) = string_to_number s)
   \<and> truthy (JStr ''0.00'') \<and> to_number (JStr ''0.00'') = Fin 0
   \<and> coffinCharges cu (rows @ [c]) = js_add (coffinCharges cu rows) (js_mul (price cu c) (qty c))"
    using price_cases [of c cu] by (simp add: text_zero coffinCharges_snoc)
  show ?thesis using pure noerr rows by blast
qed


lemma worldCoffin_values:
  "select_deceased (db (worldCoffin r)) = [] @ caseUSD # []"
  "deceased (db (worldCoffin r)) = [caseUSD]"
  "select_coffins ''D2'' (db (worldCoffin r)) = [coffinKES r]"
  "select_extra_charges i (db (worldCoffin r)) = []"
  "reads (worldCoffin r) = 0" "errorLog (worldCoffin r) = []"
  by (simp_all add: worldCoffin_def select_deceased_def select_coffins_def coffinKES_def
        select_extra_charges_def caseUSD_def)

lemma coffin_text_zero:
  "price ''USD'' (coffinKES (JStr ''0.00'')) = PosInf"
  "coffinCharges ''USD'' [coffinKES (JStr ''0.00'')] = PosInf"
  by (simp_all add: coffinCharges_def price_def qty_def coffinKES_def js_or_def parse_13000
        text_zero js_inf_def)

theorem conversion_rate_default_witness:
  "coffin_currency (coffinKES JNull) = Some ''KES'' \<and> ''USD'' \<noteq> ''KES''
   \<and> price ''USD'' (coffinKES JNull) = Fin 100
   \<and> price ''USD'' (coffinKES (JStr ''0.00'')) = PosInf
   \<and> (- 130 :: rat) \<noteq> 0
   \<and> price ''USD'' (coffinKES (JNum (Fin (- 130)))) = Fin (- 100)
   \<and> coffin_currency (coffinUSD (JNum (Fin 120))) = Some ''USD'' \<and> ''KES'' \<noteq> ''USD''
   \<and> price ''KES'' (coffinUSD (JNum (Fin 120))) = Fin 12000
   \<and> price ''KES'' (coffinKES JNull) = Fin 13000
   \<and> price ''USD'' (coffinUSD JNull) = Fin 100
   \<and> ''0.00'' \<noteq> [] \<and> to_number (JStr ''0.00'') = string_to_number ''0.00''
   \<and> (\<forall>n. \<not> fails envOK n)
   \<and> select_deceased (db (worldCoffin (JStr ''0.00''))) = [] @ caseUSD # []
   \<and> errorLog (updateMortuaryCharges envOK (worldCoffin (JStr ''0.00''))) = []
   \<and> d_total_mortuary_charge
         (deceased (db (updateMortuaryCharges envOK (worldCoffin (JStr ''0.00'')))) ! 0)
       = JNum PosInf"
proof -
  have a: "price ''USD'' (coffinKES JNull) = Fin 100"
    using conversion_rate_default [of "coffinKES JNull" "''USD''"]
    by (simp add: coffinKES_fields)
  have b: "price ''USD'' (coffinKES (JStr ''0.00'')) = PosInf"
    using conversion_rate_default [of "coffinKES (JStr ''0.00'')" "''USD''"]
    by (simp add: coffinKES_fields text_zero js_inf_def)
  have c: "price ''USD'' (coffinKES (JNum (Fin (- 130)))) = Fin (- 100)"
    using conversion_rate_default [of "coffinKES (JNum (Fin (- 130)))" "''USD''" "- 130"]
    by (simp add: coffinKES_fields)
  have d: "price ''KES'' (coffinUSD (JNum (Fin 120))) = Fin 12000"
    using conversion_rate_default [of "coffinUSD (JNum (Fin 120))" "''KES''" "120"]
    by (simp add: coffinUSD_fields)
  have f: "price ''KES'' (coffinKES JNull) = Fin 13000"
    using conversion_rate_default [of "coffinKES JNull" "''KES''"]
    by (simp add: coffinKES_fields)
  have g: "price ''USD'' (coffinUSD JNull) = Fin 100"
    using conversion_rate_default [of "coffinUSD JNull" "''USD''"]
    by (simp add: coffinUSD_fields)
  have t: "to_number (JStr ''0.00'') = string_to_number ''0.00''"
    using conversion_rate_default [where s = "''0.00''"] by simp
  have nf: "\<forall>n. \<not> fails envOK n" by (simp add: envOK_values)
  note run = conversion_rate_default [of _ _ _ _ _ envOK "worldCoffin (JStr ''0.00'')" "[]" caseUSD "[]"]
  note noerr = run [THEN conjunct2, THEN conjunct2, THEN conjunct2, THEN conjunct2,
      THEN conjunct2, THEN conjunct2, THEN conjunct2, THEN conjunct2, THEN conjunct2,
      THEN conjunct2, THEN conjunct2, THEN conjunct2, THEN conjunct1]
  note rows = run [THEN conjunct2, THEN conjunct2, THEN conjunct2, THEN conjunct2,
      THEN conjunct2, THEN conjunct2, THEN conjunct2, THEN conjunct2, THEN conjunct2,
      THEN conjunct2, THEN conjunct2, THEN conjunct2, THEN conjunct2]
  have e1: "errorLog (updateMortuaryCharges envOK (worldCoffin (JStr ''0.00''))) = []"
    using noerr nf by (simp add: worldCoffin_values)
  have all: "\<forall>r \<in> set (deceased (db (updateMortuaryCharges envOK (worldCoffin (JStr ''0.00''))))).
               d_deceased_id r = d_deceased_id caseUSD \<longrightarrow>
               d_total_mortuary_charge r = JNum PosInf"
    using rows nf
    by (simp add: worldCoffin_values envOK_values caseUSD_values caseUSD_cur coffin_text_zero
          empty_sums newTotal_def)
  have row: "d_total_mortuary_charge
         (deceased (db (updateMortuaryCharges envOK (worldCoffin (JStr ''0.00'')))) ! 0)
       = JNum PosInf"
    using all first_row [OF worldCoffin_values(2), of envOK "JStr ''0.00''"]
    by simp
  show ?thesis
    using a b c d f g t nf e1 row
    by (simp add: coffinKES_fields coffinUSD_fields worldCoffin_values)
qed


lemma NaN_spreads:
  "newTotal st c NaN m = NaN" "newTotal st c x NaN = NaN"
  "balance NaN p = NaN" "balance t NaN = NaN"
  by (simp_all add: newTotal_def balance_def js_sub_def js_add_NaN)

text \<open>
  C9, as the code has it. An extra-charge or payment amount that is missing (NULL, the
  empty string, or the Number 0 or NaN) contributes 0 to its sum, and a missing embalming
  cost is 0. An amount that is present but does not read as a number is not replaced: it
  reads as NaN, the sum it belongs to is NaN, and a malformed embalming cost is NaN. A
  NaN among the extra charges or as embalming cost makes the total charge NaN, and with
  it the balance; NaN payments make the balance NaN and leave the total charge alone,
  since the total written by a run is built from the storage charge, the coffin charges,
  the extra charges and the embalming cost only. No amount makes a case fail: a run in
  which no query throws logs no error. (Whether the database accepts a NaN parameter is
  the driver's matter; in the model it is a query that throws or does not.)
\<close>

theorem missing_amount_is_zero:
  "(\<not> truthy a \<longrightarrow> extraCharges (xs @ a # ys) = extraCharges (xs @ ys)
                    \<and> totalPayments (xs @ a # ys) = totalPayments (xs @ ys))
   \<and> (\<not> truthy (d_embalming_cost d) \<longrightarrow> embalming d = Fin 0)
   \<and> (truthy a \<and> parseFloat a = NaN
        \<longrightarrow> extraCharges (xs @ a # ys) = NaN \<and> totalPayments (xs @ a # ys) = NaN)
   \<and> (truthy (d_embalming_cost d) \<and> parseFloat (d_embalming_cost d) = NaN
        \<longrightarrow> embalming d = NaN)
   \<and> newTotal st c NaN m = NaN \<and> newTotal st c x NaN = NaN
   \<and> balance NaN p = NaN \<and> balance t NaN = NaN
   \<and> ((\<forall>n. \<not> fails e n) \<longrightarrow> errorLog (updateMortuaryCharges e w) = errorLog w)
   \<and> ((\<forall>n. \<not> fails e n) \<and> select_deceased (db w) = pre @ d # post
        \<and> d_deceased_id d \<notin> d_deceased_id ` set post
        \<longrightarrow> (\<forall>r \<in> set (deceased (db (updateMortuaryCharges e w))).
               d_deceased_id r = d_deceased_id d \<longrightarrow>
               d_total_mortuary_charge r =
                 JNum (newTotal (totalStorageCharge d (clock e (reads w + 1 + 2 * length pre)))
                         (coffinCharges (cur d) (select_coffins (d_deceased_id d) (db w)))
                         (extraCharges (select_extra_charges (d_deceased_id d) (db w)))
                         (embalming d))
               \<and> d_balance r =
                 JNum (balance
                         (newTotal (totalStorageCharge d (clock e (reads w + 1 + 2 * length pre)))
                            (coffinCharges (cur d) (select_coffins (d_deceased_id d) (db w)))
                            (extraCharges (select_extra_charges (d_deceased_id d) (db w)))
                            (embalming d))
                         (totalPayments (select_payments (d_deceased_id d) (db w))))))"
proof -
  have rows: "d_total_mortuary_charge r =
                 JNum (newTotal (totalStorageCharge d (clock e (reads w + 1 + 2 * length pre)))
                         (coffinCharges (cur d) (select_coffins (d_deceased_id d) (db w)))
                         (extraCharges (select_extra_charges (d_deceased_id d) (db w)))
                         (embalming d))
               \<and> d_balance r =
                 JNum (balance
                         (newTotal (totalStorageCharge d (clock e (reads w + 1 + 2 * length pre)))
                            (coffinCharges (cur d) (select_coffins (d_deceased_id d) (db w)))
                            (extraCharges (select_extra_charges (d_deceased_id d) (db w)))
                            (embalming d))
                         (totalPayments (select_payments (d_deceased_id d) (db w))))"
    if h: "(\<forall>n. \<not> fails e n) \<and> select_deceased (db w) = pre @ d # post
        \<and> d_deceased_id d \<notin> d_deceased_id ` set post"
      and r: "r \<in> set (deceased (db (updateMortuaryCharges e w)))" "d_deceased_id r = d_deceased_id d"
    for r
  proof -
    have nf: "\<forall>n. \<not> fails e n" and sel: "select_deceased (db w) = pre @ d # post"
      and last: "d_deceased_id d \<notin> d_deceased_id ` set post"
      using h by blast+
    show ?thesis using run_case_rows [OF nf sel last r] by blast
  qed
  have noerr: "errorLog (updateMortuaryCharges e w) = errorLog w" if "\<forall>n. \<not> fails e n"
    using that by (rule run_no_error)
  have miss: "extraCharges (xs @ a # ys) = extraCharges (xs @ ys)
                    \<and> totalPayments (xs @ a # ys) = totalPayments (xs @ ys)"
    if "\<not> truthy a"
    unfolding extraCharges_def totalPayments_def
    using sum_skips_missing [OF that] by blast
  have emb0: "embalming d = Fin 0" if "\<not> truthy (d_embalming_cost d)"
    using that by (simp add: embalming_def missing_reads_zero)
  have bad: "extraCharges (xs @ a # ys) = NaN \<and> totalPayments (xs @ a # ys) = NaN"
    if "truthy a \<and> parseFloat a = NaN"
  proof -
    have "truthy a" "parseFloat a = NaN" using that by simp_all
    then show ?thesis
      unfolding extraCharges_def totalPayments_def
      using sum_hits_NaN by blast
  qed
  have embN: "embalming d = NaN"
    if "truthy (d_embalming_cost d) \<and> parseFloat (d_embalming_cost d) = NaN"
    using that by (simp add: embalming_def present_reads_itself)
  show ?thesis using miss emb0 bad embN NaN_spreads noerr rows by blast
qed


lemma worldBadPayment_values:
  "select_deceased (db worldBadPayment) = [] @ case0 # []"
  "deceased (db worldBadPayment) = [case0]"
  "select_coffins i (db worldBadPayment) = []"
  "select_extra_charges i (db worldBadPayment) = []"
  "select_payments ''D1'' (db worldBadPayment) = [JStr ''abc'']"
  "reads worldBadPayment = 0" "errorLog worldBadPayment = []"
  by (simp_all add: worldBadPayment_def select_deceased_def select_coffins_def
        select_extra_charges_def select_payments_def case0_def)

lemma worldBadAmount_values:
  "select_deceased (db worldBadAmount) = [] @ case0 # []"
  "deceased (db worldBadAmount) = [case0]"
  "select_coffins i (db worldBadAmount) = []"
  "select_extra_charges ''D1'' (db worldBadAmount) = [JStr ''abc'']"
  "select_payments i (db worldBadAmount) = []"
  "reads worldBadAmount = 0" "errorLog worldBadAmount = []"
  by (simp_all add: worldBadAmount_def select_deceased_def select_coffins_def
        select_extra_charges_def select_payments_def case0_def)

lemma totalPayments_abc: "totalPayments [JStr ''abc''] = NaN"
  by (simp add: totalPayments_def js_or_def parse_abc)

lemma caseBadEmbalming_values:
  "truthy (d_embalming_cost caseBadEmbalming)"
  "parseFloat (d_embalming_cost caseBadEmbalming) = NaN"
  by (simp_all add: caseBadEmbalming_def parse_abc)

theorem missing_amount_is_zero_witness:
  "\<not> truthy JNull
   \<and> extraCharges ([JStr ''100.00''] @ JNull # []) = Fin 100
   \<and> totalPayments ([JStr ''100.00''] @ JNull # []) = Fin 100
   \<and> \<not> truthy (d_embalming_cost case0) \<and> embalming case0 = Fin 0
   \<and> truthy (JStr ''abc'') \<and> parseFloat (JStr ''abc'') = NaN
   \<and> extraCharges ([JStr ''100.00''] @ JStr ''abc'' # []) = NaN
   \<and> totalPayments ([JStr ''100.00''] @ JStr ''abc'' # []) = NaN
   \<and> truthy (d_embalming_cost caseBadEmbalming)
   \<and> parseFloat (d_embalming_cost caseBadEmbalming) = NaN
   \<and> embalming caseBadEmbalming = NaN
   \<and> (\<forall>n. \<not> fails envOK n)
   \<and> select_deceased (db worldBadPayment) = [] @ case0 # []
   \<and> errorLog (updateMortuaryCharges envOK worldBadPayment) = []
   \<and> d_total_mortuary_charge (deceased (db (updateMortuaryCharges envOK worldBadPayment)) ! 0)
       = JNum (Fin 6000)
   \<and> d_balance (deceased (db (updateMortuaryCharges envOK worldBadPayment)) ! 0) = JNum NaN
   \<and> select_deceased (db worldBadAmount) = [] @ case0 # []
   \<and> d_total_mortuary_charge (deceased (db (updateMortuaryCharges envOK worldBadAmount)) ! 0)
       = JNum NaN
   \<and> d_balance (deceased (db (updateMortuaryCharges envOK worldBadAmount)) ! 0) = JNum NaN"
proof -
  note m = missing_amount_is_zero [of JNull "[JStr ''100.00'']" "[]" case0]
  note n = missing_amount_is_zero [of "JStr ''abc''" "[JStr ''100.00'']" "[]" caseBadEmbalming]
  have a: "extraCharges ([JStr ''100.00''] @ JNull # []) = Fin 100"
          "totalPayments ([JStr ''100.00''] @ JNull # []) = Fin 100"
    using m by (simp_all add: sums_100)
  have b: "embalming case0 = Fin 0"
    using m by (simp add: case0_embalming_cost)
  have q: "parseFloat (JStr ''abc'') = NaN" by (simp add: parse_abc)
  have c: "extraCharges ([JStr ''100.00''] @ JStr ''abc'' # []) = NaN"
          "totalPayments ([JStr ''100.00''] @ JStr ''abc'' # []) = NaN"
    using n q by simp_all
  have d: "embalming caseBadEmbalming = NaN"
    using n caseBadEmbalming_values by blast
  have nf: "\<forall>n. \<not> fails envOK n" by (simp add: envOK_values)
  note runP = missing_amount_is_zero [of _ _ _ case0 _ _ _ _ _ _ envOK worldBadPayment "[]" "[]"]
  note runA = missing_amount_is_zero [of _ _ _ case0 _ _ _ _ _ _ envOK worldBadAmount "[]" "[]"]
  note noerrP = runP [THEN conjunct2, THEN conjunct2, THEN conjunct2, THEN conjunct2,
      THEN conjunct2, THEN conjunct2, THEN conjunct2, THEN conjunct2, THEN conjunct1]
  note rowsP = runP [THEN conjunct2, THEN conjunct2, THEN conjunct2, THEN conjunct2,
      THEN conjunct2, THEN conjunct2, THEN conjunct2, THEN conjunct2, THEN conjunct2]
  note rowsA = runA [THEN conjunct2, THEN conjunct2, THEN conjunct2, THEN conjunct2,
      THEN conjunct2, THEN conjunct2, THEN conjunct2, THEN conjunct2, THEN conjunct2]
  have e1: "errorLog (updateMortuaryCharges envOK worldBadPayment) = []"
    using noerrP nf by (simp add: worldBadPayment_values)
  have allP: "\<forall>r \<in> set (deceased (db (updateMortuaryCharges envOK worldBadPayment))).
               d_deceased_id r = d_deceased_id case0 \<longrightarrow>
               d_total_mortuary_charge r = JNum (Fin 6000) \<and> d_balance r = JNum NaN"
    using rowsP nf
    by (simp add: worldBadPayment_values envOK_values case0_values case0_cur empty_sums
          totalPayments_abc newTotal_def balance_def js_sub_def)
  have allA: "\<forall>r \<in> set (deceased (db (updateMortuaryCharges envOK worldBadAmount))).
               d_deceased_id r = d_deceased_id case0 \<longrightarrow>
               d_total_mortuary_charge r = JNum NaN \<and> d_balance r = JNum NaN"
    using rowsA nf
    by (simp add: worldBadAmount_values envOK_values case0_values case0_cur empty_sums
          extraCharges_abc newTotal_def balance_def js_sub_def)
  have rowP: "d_total_mortuary_charge (deceased (db (updateMortuaryCharges envOK worldBadPayment)) ! 0)
       = JNum (Fin 6000)"
     "d_balance (deceased (db (updateMortuaryCharges envOK worldBadPayment)) ! 0) = JNum NaN"
    using allP first_row [OF worldBadPayment_values(2), of envOK] by simp_all
  have rowA: "d_total_mortuary_charge (deceased (db (updateMortuaryCharges envOK worldBadAmount)) ! 0)
       = JNum NaN"
     "d_balance (deceased (db (updateMortuaryCharges envOK worldBadAmount)) ! 0) = JNum NaN"
    using allA first_row [OF worldBadAmount_values(2), of envOK] by simp_all
  show ?thesis
    using a b c d q nf e1 rowP rowA caseBadEmbalming_values
    by (simp add: case0_embalming_cost worldBadPayment_values worldBadAmount_values)
qed

section \<open>Two runs in succession\<close>

lemma unreconciled_reads:
  "cur (unreconciled r) = cur r" "baseRate (unreconciled r) = baseRate r"
  "admissionDate (unreconciled r) = admissionDate r" "embalming (unreconciled r) = embalming r"
  "d_deceased_id (unreconciled r) = d_deceased_id r"
  "totalStorageCharge (unreconciled r) t = totalStorageCharge r t"
  "d_created_at (unreconciled r) = d_created_at r" "d_status (unreconciled r) = d_status r"
  by (simp_all add: unreconciled_def cur_def baseRate_def admissionDate_def embalming_def
        totalStorageCharge_def totalDays_def split: option.split)

lemma unreconciled_same:
  assumes "unreconciled d' = unreconciled d"
  shows "cur d' = cur d" "baseRate d' = baseRate d" "admissionDate d' = admissionDate d"
    "embalming d' = embalming d" "d_deceased_id d' = d_deceased_id d"
    "totalStorageCharge d' t = totalStorageCharge d t"
  using assms unreconciled_reads by metis+

lemma select_deceased_filter:
  "select_deceased D =
     filter (\<lambda>r. d_created_at (unreconciled r) \<noteq> None
                  \<and> (d_status (unreconciled r) = None \<or> d_status (unreconciled r) \<noteq> Some ''Complete''))
       (deceased D)"
  by (simp add: select_deceased_def unreconciled_reads)

lemma filter_map_eq:
  "map g xs = map g ys \<Longrightarrow> map g (filter (\<lambda>r. P (g r)) xs) = map g (filter (\<lambda>r. P (g r)) ys)"
proof (induction xs arbitrary: ys)
  case Nil
  then show ?case by simp
next
  case (Cons x xs)
  then obtain y ys' where ys: "ys = y # ys'" and g: "g x = g y" and rest: "map g xs = map g ys'"
    by (cases ys) auto
  show ?case using Cons.IH [OF rest] g by (simp add: ys)
qed

lemma select_deceased_unreconciled:
  assumes "map unreconciled (deceased D') = map unreconciled (deceased D)"
  shows "map unreconciled (select_deceased D') = map unreconciled (select_deceased D)"
  unfolding select_deceased_filter
  using filter_map_eq [OF assms,
      of "\<lambda>u. d_created_at u \<noteq> None \<and> (d_status u = None \<or> d_status u \<noteq> Some ''Complete'')"]
  by simp

lemma map_unreconciled_split:
  assumes "map unreconciled xs = map unreconciled (pre @ d # post)"
  shows "\<exists>pre' d' post'. xs = pre' @ d' # post' \<and> length pre' = length pre
           \<and> unreconciled d' = unreconciled d
           \<and> d_deceased_id ` set post' = d_deceased_id ` set post"
proof -
  from assms obtain pre' rest where xs: "xs = pre' @ rest"
    and p: "map unreconciled pre' = map unreconciled pre"
    and r: "map unreconciled rest = map unreconciled (d # post)"
    by (auto simp: map_eq_append_conv)
  from r obtain d' post' where rest: "rest = d' # post'" and d: "unreconciled d' = unreconciled d"
    and po: "map unreconciled post' = map unreconciled post"
    by (auto simp: map_eq_Cons_conv)
  have l: "length pre' = length pre" using p by (metis length_map)
  have "map d_deceased_id (map unreconciled post') = map d_deceased_id (map unreconciled post)"
    using po by simp
  then have "map d_deceased_id post' = map d_deceased_id post"
    by (simp add: unreconciled_reads comp_def)
  then have "d_deceased_id ` set post' = d_deceased_id ` set post"
    by (metis set_map)
  then show ?thesis using xs rest l d by blast
qed

lemma second_run_rows:
  assumes nf: "\<forall>n. \<not> fails e2 n"
      and sel: "select_deceased (db w) = pre @ d # post"
      and last: "d_deceased_id d \<notin> d_deceased_id ` set post"
      and r: "r \<in> set (deceased (db (updateMortuaryCharges e2 (updateMortuaryCharges e1 w))))"
             "d_deceased_id r = d_deceased_id d"
  shows "d_total_mortuary_charge r =
           JNum (newTotal (totalStorageCharge d
                             (clock e2 (reads (updateMortuaryCharges e1 w) + 1 + 2 * length pre)))
                   (coffinCharges (cur d) (select_coffins (d_deceased_id d) (db w)))
                   (extraCharges (select_extra_charges (d_deceased_id d) (db w))) (embalming d))
         \<and> d_balance r =
           JNum (balance
                   (newTotal (totalStorageCharge d
                                (clock e2 (reads (updateMortuaryCharges e1 w) + 1 + 2 * length pre)))
                      (coffinCharges (cur d) (select_coffins (d_deceased_id d) (db w)))
                      (extraCharges (select_extra_charges (d_deceased_id d) (db w))) (embalming d))
                   (totalPayments (select_payments (d_deceased_id d) (db w))))"
proof -
  let ?w1 = "updateMortuaryCharges e1 w"
  note fr = updateMortuaryCharges_frame [of e1 w]
  have "map unreconciled (select_deceased (db ?w1)) = map unreconciled (pre @ d # post)"
    using select_deceased_unreconciled [of "db ?w1" "db w"] fr sel by simp
  then obtain pre' d' post' where sel': "select_deceased (db ?w1) = pre' @ d' # post'"
    and l: "length pre' = length pre" and d': "unreconciled d' = unreconciled d"
    and po: "d_deceased_id ` set post' = d_deceased_id ` set post"
    using map_unreconciled_split by blast
  note same = unreconciled_same [OF d']
  have last': "d_deceased_id d' \<notin> d_deceased_id ` set post'"
    using last po same(5) by simp
  have r': "d_deceased_id r = d_deceased_id d'" using r(2) same(5) by simp
  note c = select_coffins_cong [of "db ?w1" "db w" "d_deceased_id d"]
  note x = select_extra_charges_cong [of "db ?w1" "db w" "d_deceased_id d"]
  note p = select_payments_cong [of "db ?w1" "db w" "d_deceased_id d"]
  show ?thesis
    using run_case_rows [OF nf sel' last' r(1) r'] fr c x p
    by (simp add: same l)
qed


lemma storage_gap:
  assumes "admissionDate d = ValidDate a" "a \<le> t1" "t1 \<le> t2" "baseRate d = Fin rate"
  shows "totalStorageCharge d t2 =
           js_add (totalStorageCharge d t1) (Fin (rate * (of_int (t2 - t1) / 86400000)))"
  using assms
  by (auto simp: totalStorageCharge_def totalDays_def getFractionalDays_cases field_simps)

text \<open>
  C7. A run of \<^verbatim>\<open>updateMortuaryCharges\<close> changes neither the coffin tables, the extra
  charges nor the payments, and leaves every column of the cases alone except the stored
  total, the time stamp and the balance. For two runs in succession in which no query
  throws, with nothing recorded in between, both write for a selected case a total built
  from the same coffin charges, extra charges and embalming cost, summed again from the
  tables, and a balance with the same sum of payments: these components change by exactly
  zero, and the total stored by the first run is no input of the second. The two totals
  differ only in the storage charge, taken at the clock reading of each run. In the exact
  arithmetic of the model the storage charge of an admitted case grows by the daily rate
  times the days elapsed between the two clock readings, and a total with finite
  components grows by the same amount. (The audit entries are not the same in the two
  runs: the incremental charge depends on the time stamp the first run wrote.)
\<close>

theorem reconciliation_resums:
  "coffin_issue (db (updateMortuaryCharges e1 w)) = coffin_issue (db w)
   \<and> coffins (db (updateMortuaryCharges e1 w)) = coffins (db w)
   \<and> extra_charges (db (updateMortuaryCharges e1 w)) = extra_charges (db w)
   \<and> payments (db (updateMortuaryCharges e1 w)) = payments (db w)
   \<and> map unreconciled (deceased (db (updateMortuaryCharges e1 w)))
       = map unreconciled (deceased (db w))
   \<and> ((\<forall>n. \<not> fails e1 n) \<and> (\<forall>n. \<not> fails e2 n)
        \<and> select_deceased (db w) = pre @ d # post
        \<and> d_deceased_id d \<notin> d_deceased_id ` set post
        \<longrightarrow>
          (\<forall>r \<in> set (deceased (db (updateMortuaryCharges e1 w))).
             d_deceased_id r = d_deceased_id d \<longrightarrow>
             d_total_mortuary_charge r =
               JNum (newTotal (totalStorageCharge d (clock e1 (reads w + 1 + 2 * length pre)))
                       (coffinCharges (cur d) (select_coffins (d_deceased_id d) (db w)))
                       (extraCharges (select_extra_charges (d_deceased_id d) (db w)))
                       (embalming d))
             \<and> d_balance r =
               JNum (balance
                       (newTotal (totalStorageCharge d (clock e1 (reads w + 1 + 2 * length pre)))
                          (coffinCharges (cur d) (select_coffins (d_deceased_id d) (db w)))
                          (extraCharges (select_extra_charges (d_deceased_id d) (db w)))
                          (embalming d))
                       (totalPayments (select_payments (d_deceased_id d) (db w)))))
        \<and> (\<forall>r \<in> set (deceased (db (updateMortuaryCharges e2 (updateMortuaryCharges e1 w)))).
             d_deceased_id r = d_deceased_id d \<longrightarrow>
             d_total_mortuary_charge r =
               JNum (newTotal (totalStorageCharge d
                                 (clock e2 (reads (updateMortuaryCharges e1 w) + 1 + 2 * length pre)))
                       (coffinCharges (cur d) (select_coffins (d_deceased_id d) (db w)))
                       (extraCharges (select_extra_charges (d_deceased_id d) (db w)))
                       (embalming d))
             \<and> d_balance r =
               JNum (balance
                       (newTotal (totalStorageCharge d
                                    (clock e2 (reads (updateMortuaryCharges e1 w) + 1 + 2 * length pre)))
                          (coffinCharges (cur d) (select_coffins (d_deceased_id d) (db w)))
                          (extraCharges (select_extra_charges (d_deceased_id d) (db w)))
                          (embalming d))
                       (totalPayments (select_payments (d_deceased_id d) (db w))))))
   \<and> (admissionDate d = ValidDate a \<and> a \<le> t1 \<and> t1 \<le> t2 \<and> baseRate d = Fin rate
        \<longrightarrow> totalStorageCharge d t2 =
              js_add (totalStorageCharge d t1) (Fin (rate * (of_int (t2 - t1) / 86400000))))
   \<and> newTotal (js_add (Fin s) (Fin g)) (Fin c) (Fin x) (Fin m)
       = js_add (newTotal (Fin s) (Fin c) (Fin x) (Fin m)) (Fin g)"
proof -
  note fr = updateMortuaryCharges_frame [of e1 w]
  have first: "d_total_mortuary_charge r =
               JNum (newTotal (totalStorageCharge d (clock e1 (reads w + 1 + 2 * length pre)))
                       (coffinCharges (cur d) (select_coffins (d_deceased_id d) (db w)))
                       (extraCharges (select_extra_charges (d_deceased_id d) (db w)))
                       (embalming d))
             \<and> d_balance r =
               JNum (balance
                       (newTotal (totalStorageCharge d (clock e1 (reads w + 1 + 2 * length pre)))
                          (coffinCharges (cur d) (select_coffins (d_deceased_id d) (db w)))
                          (extraCharges (select_extra_charges (d_deceased_id d) (db w)))
                          (embalming d))
                       (totalPayments (select_payments (d_deceased_id d) (db w))))"
    if h: "(\<forall>n. \<not> fails e1 n) \<and> (\<forall>n. \<not> fails e2 n)
        \<and> select_deceased (db w) = pre @ d # post
        \<and> d_deceased_id d \<notin> d_deceased_id ` set post"
      and r: "r \<in> set (deceased (db (updateMortuaryCharges e1 w)))" "d_deceased_id r = d_deceased_id d"
    for r
  proof -
    have nf: "\<forall>n. \<not> fails e1 n" and sel: "select_deceased (db w) = pre @ d # post"
      and last: "d_deceased_id d \<notin> d_deceased_id ` set post"
      using h by blast+
    show ?thesis using run_case_rows [OF nf sel last r] by blast
  qed
  have second: "d_total_mortuary_charge r =
               JNum (newTotal (totalStorageCharge d
                                 (clock e2 (reads (updateMortuaryCharges e1 w) + 1 + 2 * length pre)))
                       (coffinCharges (cur d) (select_coffins (d_deceased_id d) (db w)))
                       (extraCharges (select_extra_charges (d_deceased_id d) (db w)))
                       (embalming d))
             \<and> d_balance r =
               JNum (balance
                       (newTotal (totalStorageCharge d
                                    (clock e2 (reads (updateMortuaryCharges e1 w) + 1 + 2 * length pre)))
                          (coffinCharges (cur d) (select_coffins (d_deceased_id d) (db w)))
                          (extraCharges (select_extra_charges (d_deceased_id d) (db w)))
                          (embalming d))
                       (totalPayments (select_payments (d_deceased_id d) (db w))))"
    if h: "(\<forall>n. \<not> fails e1 n) \<and> (\<forall>n. \<not> fails e2 n)
        \<and> select_deceased (db w) = pre @ d # post
        \<and> d_deceased_id d \<notin> d_deceased_id ` set post"
      and r: "r \<in> set (deceased (db (updateMortuaryCharges e2 (updateMortuaryCharges e1 w))))"
             "d_deceased_id r = d_deceased_id d"
    for r
  proof -
    have nf: "\<forall>n. \<not> fails e2 n" and sel: "select_deceased (db w) = pre @ d # post"
      and last: "d_deceased_id d \<notin> d_deceased_id ` set post"
      using h by blast+
    show ?thesis using second_run_rows [OF nf sel last r] .
  qed
  have gap: "totalStorageCharge d t2 =
              js_add (totalStorageCharge d t1) (Fin (rate * (of_int (t2 - t1) / 86400000)))"
    if "admissionDate d = ValidDate a \<and> a \<le> t1 \<and> t1 \<le> t2 \<and> baseRate d = Fin rate"
    using that storage_gap [of d a t1 t2 rate] by blast
  have tot: "newTotal (js_add (Fin s) (Fin g)) (Fin c) (Fin x) (Fin m)
       = js_add (newTotal (Fin s) (Fin c) (Fin x) (Fin m)) (Fin g)"
    by (simp add: newTotal_def)
  show ?thesis using fr first second gap tot by blast
qed


lemma envLater_values: "clock envLater n = 173101000" "fails envLater n = False"
  by (simp_all add: envLater_def)

lemma worldPaid_selects:
  "select_coffins i (db worldPaid) = []" "select_extra_charges i (db worldPaid) = []"
  "select_payments ''D1'' (db worldPaid) = [JStr ''2000.00'']"
  by (simp_all add: worldPaid_def dbPaid_def select_coffins_def select_extra_charges_def
        select_payments_def)

lemma case0_later: "totalStorageCharge case0 173101000 = Fin (72125 / 12)"
  by (simp add: calc_defs case0_def)

theorem reconciliation_resums_witness:
  "(\<forall>n. \<not> fails envOK n) \<and> (\<forall>n. \<not> fails envLater n)
   \<and> select_deceased (db worldPaid) = [] @ case0 # [caseUSD]
   \<and> d_deceased_id case0 \<noteq> d_deceased_id caseUSD
   \<and> d_total_mortuary_charge (deceased (db (updateMortuaryCharges envOK worldPaid)) ! 0)
       = JNum (Fin 6000)
   \<and> d_balance (deceased (db (updateMortuaryCharges envOK worldPaid)) ! 0) = JNum (Fin 4000)
   \<and> d_total_mortuary_charge
        (deceased (db (updateMortuaryCharges envLater (updateMortuaryCharges envOK worldPaid))) ! 0)
       = JNum (Fin (72125 / 12))
   \<and> d_balance
        (deceased (db (updateMortuaryCharges envLater (updateMortuaryCharges envOK worldPaid))) ! 0)
       = JNum (Fin (48125 / 12))
   \<and> payments (db (updateMortuaryCharges envOK worldPaid)) = payments (db worldPaid)
   \<and> admissionDate case0 = ValidDate 1000 \<and> (1000::int) \<le> 172801000
   \<and> (172801000::int) \<le> 173101000 \<and> baseRate case0 = Fin 3000
   \<and> totalStorageCharge case0 173101000
       = js_add (totalStorageCharge case0 172801000) (Fin (125 / 12))"
proof -
  note t = reconciliation_resums [of envOK worldPaid envLater "[]" case0 "[caseUSD]"
      1000 172801000 173101000 3000]
  have nf1: "\<forall>n. \<not> fails envOK n" by (simp add: envOK_values)
  have nf2: "\<forall>n. \<not> fails envLater n" by (simp add: envLater_values)
  have ids: "d_deceased_id case0 \<noteq> d_deceased_id caseUSD"
    by (simp add: case0_values caseUSD_values)
  have last: "d_deceased_id case0 \<notin> d_deceased_id ` set [caseUSD]"
    using ids by simp
  note two = t [THEN conjunct2, THEN conjunct2, THEN conjunct2, THEN conjunct2,
      THEN conjunct2, THEN conjunct1]
  note gap = t [THEN conjunct2, THEN conjunct2, THEN conjunct2, THEN conjunct2,
      THEN conjunct2, THEN conjunct2, THEN conjunct1]
  have both: "(\<forall>r \<in> set (deceased (db (updateMortuaryCharges envOK worldPaid))).
             d_deceased_id r = d_deceased_id case0 \<longrightarrow>
             d_total_mortuary_charge r = JNum (Fin 6000) \<and> d_balance r = JNum (Fin 4000))
        \<and> (\<forall>r \<in> set (deceased (db (updateMortuaryCharges envLater
                                         (updateMortuaryCharges envOK worldPaid)))).
             d_deceased_id r = d_deceased_id case0 \<longrightarrow>
             d_total_mortuary_charge r = JNum (Fin (72125 / 12))
             \<and> d_balance r = JNum (Fin (48125 / 12)))"
    using two nf1 nf2 worldPaid_select2 last
    by (simp add: envOK_values envLater_values case0_values case0_later case0_cur
          worldPaid_selects empty_sums paid_2000 newTotal_def balance_def js_sub_def)
  have r1: "d_total_mortuary_charge (deceased (db (updateMortuaryCharges envOK worldPaid)) ! 0)
       = JNum (Fin 6000)"
       "d_balance (deceased (db (updateMortuaryCharges envOK worldPaid)) ! 0) = JNum (Fin 4000)"
    using both first_row [OF worldPaid_fields(1), of envOK] by simp_all
  have r2: "d_total_mortuary_charge
        (deceased (db (updateMortuaryCharges envLater (updateMortuaryCharges envOK worldPaid))) ! 0)
       = JNum (Fin (72125 / 12))"
       "d_balance
        (deceased (db (updateMortuaryCharges envLater (updateMortuaryCharges envOK worldPaid))) ! 0)
       = JNum (Fin (48125 / 12))"
    using both first_row [OF worldPaid_deceased, of envLater] by (simp_all add: case0_values)
  have pay: "payments (db (updateMortuaryCharges envOK worldPaid)) = payments (db worldPaid)"
    using t by blast
  have g: "totalStorageCharge case0 173101000
       = js_add (totalStorageCharge case0 172801000) (Fin (125 / 12))"
    using gap by (simp add: case0_admissionDate case0_baseRate)
  show ?thesis
    using nf1 nf2 worldPaid_select2 ids r1 r2 pay g
    by (simp add: case0_admissionDate case0_baseRate)
qed

section \<open>Cancelled extra charges\<close>

lemma cancelled_not_selected:
  assumes "ec_status r = Some ''Cancelled''"
  shows "select_extra_charges i (D\<lparr>extra_charges := xs @ r # ys\<rparr>)
           = select_extra_charges i (D\<lparr>extra_charges := xs @ ys\<rparr>)"
  using assms by (simp add: select_extra_charges_def)

lemma sql_7: "sql_text_number ''7UP-M3X-ABC'' = Fin 7"
  by (simp add: sql_text_number_def parse_defs Let_def)

lemma worldCancelled_values:
  "select_deceased (db worldCancelled) = [] @ case7 # []"
  "deceased (db worldCancelled) = [case7]"
  "select_coffins i (db worldCancelled) = []"
  "select_extra_charges i (db worldCancelled) = []"
  "select_payments i (db worldCancelled) = []"
  "reads worldCancelled = 0"
  by (simp_all add: worldCancelled_def select_deceased_def select_coffins_def
        select_extra_charges_def select_payments_def case7_def case0_def)

lemma case7_values:
  "d_deceased_id case7 = ''7UP-M3X-ABC''" "d_id case7 = 7" "cur case7 = ''KES''"
  "totalStorageCharge case7 172801000 = Fin 6000" "embalming case7 = Fin 0"
  "d_total_mortuary_charge case7 = JNull"
  by (simp_all add: calc_defs case7_def case0_def)

lemma worldCancelled_summary:
  "map f_total_extra_charges (getAllDeceasedWithFinancials (db worldCancelled)) = [Fin 500]"
  "map f_total_charges (getAllDeceasedWithFinancials (db worldCancelled)) = [Fin 500]"
  "map f_balance (getAllDeceasedWithFinancials (db worldCancelled)) = [Fin 500]"
  by (simp_all add: getAllDeceasedWithFinancials_def worldCancelled_def Let_def sql_id_eq_def
        sql_7 case7_values sum_distinct_def coalesce0_def js_sub_def)

lemma worldCancelled_run:
  "d_total_mortuary_charge (deceased (db (updateMortuaryCharges envOK worldCancelled)) ! 0)
     = JNum (Fin 6000)"
proof -
  have nf: "\<forall>n. \<not> fails envOK n" by (simp add: envOK_values)
  have last: "d_deceased_id case7 \<notin> d_deceased_id ` set ([] :: deceased_row list)" by simp
  have "d_total_mortuary_charge r = JNum (Fin 6000)"
    if "r \<in> set (deceased (db (updateMortuaryCharges envOK worldCancelled)))"
       "d_deceased_id r = d_deceased_id case7" for r
    using run_case_rows [OF nf worldCancelled_values(1) last that]
    by (simp add: worldCancelled_values envOK_values case7_values empty_sums newTotal_def)
  then show ?thesis
    using first_row [OF worldCancelled_values(2), of envOK] by blast
qed

text \<open>
  C5. The recalculation leaves cancelled extra charges out: its select has
  \<^verbatim>\<open>status != 'Cancelled'\<close> (\<open>cancelled_not_selected\<close>), and so do the report queries
  of the repository. The financial summary of all cases does not: its join on
  \<open>extra_charges\<close> has no condition on the status. For a case whose only extra charge,
  of 500, is cancelled, the recalculation selects no extra charge and writes the total
  6000 (the storage charge alone), while the summary reports 500 as the extra charges of
  the case and counts it in its total charges and in its balance.
\<close>

theorem cancelled_charge_in_summary:
  "extra_charges (db worldCancelled) =
     [\<lparr>ec_deceased_id = ''7UP-M3X-ABC'', ec_amount = JNum (Fin 500),
       ec_status = Some ''Cancelled''\<rparr>]
   \<and> select_extra_charges (d_deceased_id case7) (db worldCancelled) = []
   \<and> d_total_mortuary_charge (deceased (db (updateMortuaryCharges envOK worldCancelled)) ! 0)
       = JNum (Fin 6000)
   \<and> map f_total_extra_charges (getAllDeceasedWithFinancials (db worldCancelled)) = [Fin 500]
   \<and> map f_total_charges (getAllDeceasedWithFinancials (db worldCancelled)) = [Fin 500]
   \<and> map f_balance (getAllDeceasedWithFinancials (db worldCancelled)) = [Fin 500]"
  using worldCancelled_summary worldCancelled_run
  by (simp add: worldCancelled_values) (simp add: worldCancelled_def)

end
